theory Spec2Isabelle
  imports Complex_Main "HOL-Library.Option_ord"
begin

section \<open>JavaScript values\<close>

text \<open>
  A text, in a JavaScript string or in a column of the database, is an Isabelle string: a
  list of characters, of which there are 256. They stand for the code units U+0000 to
  U+00FF; code units above are outside the model, and so are texts PostgreSQL would not
  store unchanged (with U+0000).
\<close>

type_synonym jsstring = string

text \<open>
  \<^verbatim>\<open>String.prototype.trim\<close> removes WhiteSpace and LineTerminator code units from both
  ends. Below U+0100 these are TAB, LF, VT, FF, CR, SP and NBSP.
\<close>

definition isWhiteSpace :: "char \<Rightarrow> bool" where
  "isWhiteSpace c \<longleftrightarrow>
     c \<in> {CHR 0x09, CHR 0x0A, CHR 0x0B, CHR 0x0C, CHR 0x0D, CHR '' '', CHR 0xA0}"

definition trim :: "jsstring \<Rightarrow> jsstring" where
  "trim s = rev (dropWhile isWhiteSpace (rev (dropWhile isWhiteSpace s)))"

text \<open>
  \<^verbatim>\<open>s.split(',')\<close>: the pieces between the separators, in order; a string without
  separator (the empty string too) gives one piece.
\<close>

fun split_acc :: "char \<Rightarrow> jsstring \<Rightarrow> jsstring \<Rightarrow> jsstring list" where
  "split_acc sep acc [] = [rev acc]"
| "split_acc sep acc (c # cs) =
     (if c = sep then rev acc # split_acc sep [] cs else split_acc sep (c # acc) cs)"

definition split :: "jsstring \<Rightarrow> char \<Rightarrow> jsstring list" where
  "split s sep = split_acc sep [] s"

definition comma :: char where
  "comma = CHR '',''"

text \<open>\<^verbatim>\<open>xs.includes(x)\<close> on an array of strings.\<close>

definition js_includes :: "jsstring list \<Rightarrow> jsstring \<Rightarrow> bool" where
  "js_includes xs x \<longleftrightarrow> x \<in> set xs"

subsection \<open>String to number\<close>

text \<open>
  \<^verbatim>\<open>Number(id)\<close> and the comparisons \<^verbatim>\<open>id >= 1\<close>, \<^verbatim>\<open>id <= 2147483647\<close> on a string
  convert it by the StringNumericLiteral grammar: optional white space around nothing
  (the value 0), a binary, octal or hexadecimal integer without sign, or a signed decimal
  literal (\<^verbatim>\<open>Infinity\<close>, digits with an optional fraction and exponent); anything else is
  NaN. The value is kept as the exact rational the literal denotes; the rounding to a
  double, which moves only values closer than \<open>2\<^sup>-\<^sup>2\<^sup>3\<close> to a bound of the checks below,
  is not modelled.
\<close>

datatype jsnum = NaN | Fin rat | PosInf | NegInf

definition isDigit :: "char \<Rightarrow> bool" where
  "isDigit c \<longleftrightarrow> c \<in> set ''0123456789''"

definition hexval :: "char \<Rightarrow> int option" where
  "hexval c =
     map_of
       [(CHR ''0'', 0), (CHR ''1'', 1), (CHR ''2'', 2), (CHR ''3'', 3), (CHR ''4'', 4),
        (CHR ''5'', 5), (CHR ''6'', 6), (CHR ''7'', 7), (CHR ''8'', 8), (CHR ''9'', 9),
        (CHR ''a'', 10), (CHR ''b'', 11), (CHR ''c'', 12), (CHR ''d'', 13), (CHR ''e'', 14),
        (CHR ''f'', 15),
        (CHR ''A'', 10), (CHR ''B'', 11), (CHR ''C'', 12), (CHR ''D'', 13), (CHR ''E'', 14),
        (CHR ''F'', 15)] c"

text \<open>The value of a digit string in a base; \<open>None\<close> when a character is no digit of
  that base, and for \<open>digits\<close> when the string is empty.\<close>

fun digits_acc :: "int \<Rightarrow> int \<Rightarrow> jsstring \<Rightarrow> int option" where
  "digits_acc b n [] = Some n"
| "digits_acc b n (c # cs) =
     (case hexval c of
        None \<Rightarrow> None
      | Some d \<Rightarrow> if d < b then digits_acc b (n * b + d) cs else None)"

definition digits :: "int \<Rightarrow> jsstring \<Rightarrow> int option" where
  "digits b s = (if s = [] then None else digits_acc b 0 s)"

definition scale10 :: "int \<Rightarrow> int \<Rightarrow> rat" where
  "scale10 m e = (if 0 \<le> e then of_int m * 10 ^ nat e else of_int m / 10 ^ nat (- e))"

text \<open>ExponentPart, or nothing: the exponent, \<open>None\<close> when the rest is malformed.\<close>

definition exponentPart :: "jsstring \<Rightarrow> int option" where
  "exponentPart s =
     (case s of
        [] \<Rightarrow> Some 0
      | c # r \<Rightarrow>
          if c = CHR ''e'' \<or> c = CHR ''E'' then
            (case r of
               [] \<Rightarrow> None
             | d # r' \<Rightarrow>
                 if d = CHR ''-'' then map_option uminus (digits 10 r')
                 else if d = CHR ''+'' then digits 10 r'
                 else digits 10 r)
          else None)"

text \<open>StrUnsignedDecimalLiteral without \<^verbatim>\<open>Infinity\<close>: the rational value.\<close>

definition unsignedDecimal :: "jsstring \<Rightarrow> rat option" where
  "unsignedDecimal s =
     (let ip = takeWhile isDigit s; r = dropWhile isDigit s in
      case r of
        c # r' \<Rightarrow>
          if c = CHR ''.'' then
            (let fp = takeWhile isDigit r'; r'' = dropWhile isDigit r' in
             if ip = [] \<and> fp = [] then None
             else (case exponentPart r'' of
                     None \<Rightarrow> None
                   | Some e \<Rightarrow>
                       map_option (\<lambda>m. scale10 m (e - int (length fp)))
                         (digits_acc 10 0 (ip @ fp))))
          else if ip = [] then None
          else (case exponentPart r of
                  None \<Rightarrow> None
                | Some e \<Rightarrow> map_option (\<lambda>m. scale10 m e) (digits_acc 10 0 ip))
      | [] \<Rightarrow> if ip = [] then None else map_option (\<lambda>m. scale10 m 0) (digits_acc 10 0 ip))"

definition strDecimalLiteral :: "jsstring \<Rightarrow> jsnum" where
  "strDecimalLiteral s =
     (let neg = (case s of c # _ \<Rightarrow> c = CHR ''-'' | [] \<Rightarrow> False);
          signed = (case s of c # _ \<Rightarrow> c = CHR ''-'' \<or> c = CHR ''+'' | [] \<Rightarrow> False);
          u = (if signed then tl s else s) in
      if u = ''Infinity'' then (if neg then NegInf else PosInf)
      else (case unsignedDecimal u of
              None \<Rightarrow> NaN
            | Some v \<Rightarrow> Fin (if neg then - v else v)))"

definition prefixed :: "jsstring \<Rightarrow> char \<Rightarrow> char \<Rightarrow> bool" where
  "prefixed s lo up \<longleftrightarrow>
     (case s of z # x # _ \<Rightarrow> z = CHR ''0'' \<and> (x = lo \<or> x = up) | _ \<Rightarrow> False)"

definition ToNumber :: "jsstring \<Rightarrow> jsnum" where
  "ToNumber str =
     (let s = trim str in
      if s = [] then Fin 0
      else if prefixed s CHR ''x'' CHR ''X'' then
        (case digits 16 (drop 2 s) of None \<Rightarrow> NaN | Some n \<Rightarrow> Fin (of_int n))
      else if prefixed s CHR ''o'' CHR ''O'' then
        (case digits 8 (drop 2 s) of None \<Rightarrow> NaN | Some n \<Rightarrow> Fin (of_int n))
      else if prefixed s CHR ''b'' CHR ''B'' then
        (case digits 2 (drop 2 s) of None \<Rightarrow> NaN | Some n \<Rightarrow> Fin (of_int n))
      else strDecimalLiteral s)"

text \<open>\<^verbatim>\<open>Number.isNaN\<close>, and the relational operators against a number: a comparison
  with NaN is false.\<close>

definition isNaN :: "jsnum \<Rightarrow> bool" where
  "isNaN x \<longleftrightarrow> x = NaN"

definition js_ge :: "jsnum \<Rightarrow> rat \<Rightarrow> bool" where
  "js_ge x k = (case x of NaN \<Rightarrow> False | Fin v \<Rightarrow> k \<le> v | PosInf \<Rightarrow> True | NegInf \<Rightarrow> False)"

definition js_le :: "jsnum \<Rightarrow> rat \<Rightarrow> bool" where
  "js_le x k = (case x of NaN \<Rightarrow> False | Fin v \<Rightarrow> v \<le> k | PosInf \<Rightarrow> False | NegInf \<Rightarrow> True)"

section \<open>The PostgreSQL store\<close>

subsection \<open>Tables\<close>

text \<open>
  The schema of the database dump: \<^verbatim>\<open>files\<close>, \<^verbatim>\<open>posts\<close>, \<^verbatim>\<open>taggings\<close>, \<^verbatim>\<open>tags\<close> and
  \<^verbatim>\<open>users\<close>, the sequences behind \<^verbatim>\<open>fileId\<close> and \<^verbatim>\<open>postId\<close>, and a count of the
  statements the connection pool has sent. A table is the list of its rows in heap order;
  a nullable column is an \<open>option\<close>; a timestamp is a number of microseconds.
\<close>

record file_row =
  fileId :: int
  fileObjectKey :: jsstring
  previewImagePath :: jsstring
  filePropsName :: "jsstring option"
  filePropsSound :: "int option"
  filePropsLayerCount :: "int option"

record post_row =
  postId :: int
  post_fileId :: int
  post_userId :: int
  post_createdAt :: int
  title :: jsstring
  description :: "jsstring option"

record tagging_row =
  tagName :: jsstring
  tagging_postId :: int

record user_row =
  userId :: int
  username :: jsstring
  hashedPassword :: jsstring
  user_createdAt :: int

record store =
  files :: "file_row list"
  posts :: "post_row list"
  taggings :: "tagging_row list"
  tags :: "jsstring list"
  users :: "user_row list"
  files_fileId_seq :: int
  posts_postId_seq :: int
  statements :: nat

datatype pg_error =
    not_null_violation
  | unique_violation
  | foreign_key_violation
  | invalid_text_representation
  | numeric_value_out_of_range
  | sequence_generator_limit_exceeded
  | invalid_row_count_in_result_offset_clause
  | storage_failure

subsection \<open>Parameters\<close>

text \<open>
  node-postgres sends every parameter as text and the server reads it by the input
  function of the column's type. For \<^verbatim>\<open>integer\<close> and \<^verbatim>\<open>bigint\<close> that is: optional
  white space (of the C locale), an optional sign, at least one decimal digit, optional
  white space, and nothing else; a value outside the type's range is an error, found while
  the digits are read. \<^verbatim>\<open>undefined\<close> and \<^verbatim>\<open>null\<close> are sent as NULL.
\<close>

definition isspace :: "char \<Rightarrow> bool" where
  "isspace c \<longleftrightarrow> c \<in> {CHR '' '', CHR 0x09, CHR 0x0A, CHR 0x0B, CHR 0x0C, CHR 0x0D}"

definition decimal :: "jsstring \<Rightarrow> int" where
  "decimal ds =
     foldl (\<lambda>n c. n * 10 + (case hexval c of None \<Rightarrow> 0 | Some d \<Rightarrow> d)) 0 ds"

definition pg_strtoint :: "int \<Rightarrow> int \<Rightarrow> jsstring \<Rightarrow> pg_error + int" where
  "pg_strtoint lo hi s =
     (let s1 = dropWhile isspace s;
          neg = (case s1 of c # _ \<Rightarrow> c = CHR ''-'' | [] \<Rightarrow> False);
          signed = (case s1 of c # _ \<Rightarrow> c = CHR ''-'' \<or> c = CHR ''+'' | [] \<Rightarrow> False);
          s2 = (if signed then tl s1 else s1);
          ds = takeWhile isDigit s2;
          rest = dropWhile isspace (dropWhile isDigit s2);
          v = (if neg then - decimal ds else decimal ds) in
      if ds = [] then Inl invalid_text_representation
      else if v < lo \<or> hi < v then Inl numeric_value_out_of_range
      else if rest \<noteq> [] then Inl invalid_text_representation
      else Inr v)"

definition int4in :: "jsstring \<Rightarrow> pg_error + int" where
  "int4in = pg_strtoint (- 2147483648) 2147483647"

definition int8in :: "jsstring \<Rightarrow> pg_error + int" where
  "int8in = pg_strtoint (- 9223372036854775808) 9223372036854775807"

definition bind_int4 :: "jsstring option \<Rightarrow> pg_error + int option" where
  "bind_int4 p =
     (case p of
        None \<Rightarrow> Inr None
      | Some t \<Rightarrow> (case int4in t of Inl e \<Rightarrow> Inl e | Inr n \<Rightarrow> Inr (Some n)))"

subsection \<open>Statements\<close>

text \<open>
  A statement runs on the store and ends with a result or an error. \<^verbatim>\<open>db.query\<close> sends
  one statement outside any transaction block, so the statement is its own transaction:
  when it ends with an error, every row change it made is undone. What \<^verbatim>\<open>nextval\<close> took
  from a sequence is never given back.
\<close>

type_synonym 'a statement = "store \<Rightarrow> (pg_error + 'a) \<times> store"

definition db_query :: "'a statement \<Rightarrow> store \<Rightarrow> (pg_error + 'a) \<times> store" where
  "db_query sql s =
     (let s0 = s\<lparr>statements := statements s + 1\<rparr> in
      case sql s0 of
        (Inr r, s') \<Rightarrow> (Inr r, s')
      | (Inl e, s') \<Rightarrow>
          (Inl e, s0\<lparr>files_fileId_seq := files_fileId_seq s',
                     posts_postId_seq := posts_postId_seq s'\<rparr>))"

text \<open>The sequences are \<^verbatim>\<open>AS integer\<close>, increment 1, no cycle.\<close>

definition nextval :: "int \<Rightarrow> pg_error + int" where
  "nextval v = (if 2147483647 \<le> v then Inl sequence_generator_limit_exceeded
                else Inr (v + 1))"

text \<open>
  The steps of the two writing statements. Besides the errors the schema defines, the
  store itself may fail in any step (disk, connection); \<open>fault\<close> says in which.
\<close>

datatype step = AssetInsert | PostInsert | PostUpdate | TaggingDelete | TagUpsert | TaggingInsert

text \<open>\<^verbatim>\<open>insert into "tags" ("tagName") select unnest($9::text[]) on conflict ("tagName")
  do nothing\<close>: a name that the table, or an earlier element of the array, already has is
  skipped.\<close>

fun upsert_tags :: "jsstring list \<Rightarrow> jsstring list \<Rightarrow> jsstring list" where
  "upsert_tags tbl [] = tbl"
| "upsert_tags tbl (t # ts) = upsert_tags (if t \<in> set tbl then tbl else tbl @ [t]) ts"

text \<open>\<^verbatim>\<open>insert into "taggings" ("postId", "tagName") select "postId", unnest($9::text[])\<close>:
  one row for each element of the array; the table has no key.\<close>

definition add_taggings :: "int \<Rightarrow> jsstring list \<Rightarrow> tagging_row list" where
  "add_taggings pid ts = map (\<lambda>t. \<lparr>tagName = t, tagging_postId = pid\<rparr>) ts"

text \<open>The foreign keys of \<^verbatim>\<open>posts\<close> and \<^verbatim>\<open>taggings\<close>, checked at the end of a statement
  for the rows it wrote.\<close>

definition post_fkeys :: "store \<Rightarrow> post_row \<Rightarrow> bool" where
  "post_fkeys s p \<longleftrightarrow>
     post_fileId p \<in> fileId ` set (files s) \<and> post_userId p \<in> userId ` set (users s)"

definition tagging_fkeys :: "store \<Rightarrow> tagging_row \<Rightarrow> bool" where
  "tagging_fkeys s t \<longleftrightarrow>
     tagging_postId t \<in> postId ` set (posts s) \<and> tagName t \<in> set (tags s)"

text \<open>The constraints of the schema: the primary keys of \<^verbatim>\<open>files\<close>, \<^verbatim>\<open>posts\<close>,
  \<^verbatim>\<open>tags\<close> and \<^verbatim>\<open>users\<close>, the unique user name and password hash, and the four
  foreign keys.\<close>

definition consistent :: "store \<Rightarrow> bool" where
  "consistent s \<longleftrightarrow>
     distinct (map fileId (files s)) \<and> distinct (map postId (posts s)) \<and>
     distinct (tags s) \<and> distinct (map userId (users s)) \<and>
     distinct (map username (users s)) \<and> distinct (map hashedPassword (users s)) \<and>
     list_all (post_fkeys s) (posts s) \<and> list_all (tagging_fkeys s) (taggings s)"

section \<open>The handlers of the server\<close>

text \<open>
  How a request ends. \<open>Json\<close> and \<open>Redirect\<close> are the answers of \<^verbatim>\<open>res.json\<close> and
  \<^verbatim>\<open>res.redirect\<close>. \<open>Failed\<close> is an error thrown by the handler itself or handed to
  \<^verbatim>\<open>next\<close>: the error middleware answers with it. \<open>Unhandled\<close> is an error inside a
  promise that no \<^verbatim>\<open>catch\<close> follows: no answer is sent.
\<close>

datatype js_error = ClientError nat | TypeError | DatabaseError pg_error

datatype 'a reply = Json 'a | Redirect jsstring | Failed js_error | Unhandled js_error

subsection \<open>Creating a post\<close>

text \<open>The request of \<^verbatim>\<open>POST /api/upload\<close> after the authentication and upload
  middlewares: \<^verbatim>\<open>req.userId\<close> (null for an anonymous caller), the key and location of
  the two stored objects, and the fields of the form; a field the form does not have is
  \<open>None\<close>.\<close>

record upload_request =
  req_userId :: "int option"
  sar_key :: "jsstring option"
  thumbnail_location :: "jsstring option"
  body_title :: "jsstring option"
  body_tags :: "jsstring option"
  body_description :: "jsstring option"
  body_filePropsSound :: "jsstring option"
  body_filePropsLayerCount :: "jsstring option"
  body_filePropsName :: "jsstring option"

definition new_file ::
  "(step \<Rightarrow> bool) \<Rightarrow> jsstring \<Rightarrow> jsstring \<Rightarrow> int option \<Rightarrow> jsstring option \<Rightarrow> int option
     \<Rightarrow> file_row statement" where
  "new_file fault key loc sound name layers s =
     (if fault AssetInsert then (Inl storage_failure, s)
      else case nextval (files_fileId_seq s) of
        Inl e \<Rightarrow> (Inl e, s)
      | Inr fid \<Rightarrow>
          (let s1 = s\<lparr>files_fileId_seq := fid\<rparr>;
               f = \<lparr>fileId = fid, fileObjectKey = key, previewImagePath = loc,
                    filePropsName = name, filePropsSound = sound,
                    filePropsLayerCount = layers\<rparr> in
           if fid \<in> fileId ` set (files s1) then (Inl unique_violation, s1)
           else (Inr f, s1\<lparr>files := files s1 @ [f]\<rparr>)))"

definition new_post ::
  "(step \<Rightarrow> bool) \<Rightarrow> int \<Rightarrow> int \<Rightarrow> int \<Rightarrow> jsstring option \<Rightarrow> jsstring
     \<Rightarrow> post_row statement" where
  "new_post fault now fid uid t d s =
     (if fault PostInsert then (Inl storage_failure, s)
      else case nextval (posts_postId_seq s) of
        Inl e \<Rightarrow> (Inl e, s)
      | Inr pid \<Rightarrow>
          (let s1 = s\<lparr>posts_postId_seq := pid\<rparr> in
           case t of
             None \<Rightarrow> (Inl not_null_violation, s1)
           | Some t' \<Rightarrow>
               (let p = \<lparr>postId = pid, post_fileId = fid, post_userId = uid,
                         post_createdAt = now, title = t', description = Some d\<rparr> in
                if pid \<in> postId ` set (posts s1) then (Inl unique_violation, s1)
                else (Inr p, s1\<lparr>posts := posts s1 @ [p]\<rparr>))))"

text \<open>The statement of the handler, with its nine parameters in order: the four
  data-modifying parts \<^verbatim>\<open>new_file\<close>, \<^verbatim>\<open>new_post\<close>, \<^verbatim>\<open>upsert_tags\<close>, \<^verbatim>\<open>add_taggings\<close>,
  and the row of \<^verbatim>\<open>new_post\<close> joined with \<^verbatim>\<open>new_file\<close>. \<open>now\<close> is the time of the
  transaction, the default of \<^verbatim>\<open>createdAt\<close>.\<close>

definition upload_sql ::
  "(step \<Rightarrow> bool) \<Rightarrow> int \<Rightarrow> jsstring \<Rightarrow> jsstring \<Rightarrow> jsstring option \<Rightarrow> jsstring option
     \<Rightarrow> jsstring option \<Rightarrow> int \<Rightarrow> jsstring option \<Rightarrow> jsstring \<Rightarrow> jsstring list
     \<Rightarrow> (post_row \<times> file_row) list statement" where
  "upload_sql fault now p1 p2 p3 p4 p5 p6 p7 p8 p9 s =
     (case bind_int4 p3 of
        Inl e \<Rightarrow> (Inl e, s)
      | Inr sound \<Rightarrow>
     (case bind_int4 p5 of
        Inl e \<Rightarrow> (Inl e, s)
      | Inr layers \<Rightarrow>
     (case new_file fault p1 p2 sound p4 layers s of
        (Inl e, s1) \<Rightarrow> (Inl e, s1)
      | (Inr f, s1) \<Rightarrow>
     (case new_post fault now (fileId f) p6 p7 p8 s1 of
        (Inl e, s2) \<Rightarrow> (Inl e, s2)
      | (Inr p, s2) \<Rightarrow>
          if fault TagUpsert then (Inl storage_failure, s2)
          else
            (let s3 = s2\<lparr>tags := upsert_tags (tags s2) p9\<rparr> in
             if fault TaggingInsert then (Inl storage_failure, s3)
             else
               (let rows = add_taggings (postId p) p9;
                    s4 = s3\<lparr>taggings := taggings s3 @ rows\<rparr> in
                if post_fkeys s4 p \<and> list_all (tagging_fkeys s4) rows
                then (Inr [(p, f)], s4)
                else (Inl foreign_key_violation, s4)))))))"

text \<open>The handler. An anonymous caller posts as user 1; a missing file or a missing
  \<^verbatim>\<open>tags\<close> field throws a TypeError before the statement is sent; a falsy description
  becomes the empty string; the promise of \<^verbatim>\<open>db.query\<close> has no \<^verbatim>\<open>catch\<close>.\<close>

definition upload ::
  "(step \<Rightarrow> bool) \<Rightarrow> int \<Rightarrow> upload_request \<Rightarrow> store
     \<Rightarrow> (post_row \<times> file_row) list reply \<times> store" where
  "upload fault now req s =
     (let uid = (case req_userId req of None \<Rightarrow> 1 | Some u \<Rightarrow> u) in
      case sar_key req of
        None \<Rightarrow> (Failed TypeError, s)
      | Some key \<Rightarrow>
     (case thumbnail_location req of
        None \<Rightarrow> (Failed TypeError, s)
      | Some loc \<Rightarrow>
          (let d = (case body_description req of None \<Rightarrow> [] | Some x \<Rightarrow> x) in
           case body_tags req of
             None \<Rightarrow> (Failed TypeError, s)
           | Some rawTags \<Rightarrow>
               (let ts = map trim (split rawTags comma) in
                case db_query
                       (upload_sql fault now key loc (body_filePropsSound req)
                          (body_filePropsName req) (body_filePropsLayerCount req)
                          uid (body_title req) d ts) s of
                  (Inl e, s') \<Rightarrow> (Unhandled (DatabaseError e), s')
                | (Inr r, s') \<Rightarrow> (Json r, s')))))"

subsection \<open>The projection of a post\<close>

text \<open>The twelve columns every reading statement selects: a post with the columns of its
  file, the name of its user and its tags.\<close>

record post_view =
  r_title :: jsstring
  r_description :: "jsstring option"
  r_username :: jsstring
  r_fileObjectKey :: jsstring
  r_previewImagePath :: jsstring
  r_filePropsName :: "jsstring option"
  r_filePropsSound :: "int option"
  r_filePropsLayerCount :: "int option"
  r_postId :: int
  r_userId :: int
  r_createdAt :: int
  r_tags :: "jsstring list option"

definition project ::
  "post_row \<Rightarrow> file_row \<Rightarrow> user_row \<Rightarrow> jsstring list option \<Rightarrow> post_view" where
  "project p f u ts =
     \<lparr>r_title = title p, r_description = description p, r_username = username u,
      r_fileObjectKey = fileObjectKey f, r_previewImagePath = previewImagePath f,
      r_filePropsName = filePropsName f, r_filePropsSound = filePropsSound f,
      r_filePropsLayerCount = filePropsLayerCount f, r_postId = postId p,
      r_userId = post_userId p, r_createdAt = post_createdAt p, r_tags = ts\<rparr>"

text \<open>\<^verbatim>\<open>select "postId", array_agg("tagName") as "tags" from "taggings" group by "postId"\<close>:
  one row for each post identity that occurs in \<^verbatim>\<open>taggings\<close>, with the names of its
  rows in heap order.\<close>

definition array_agg_tagName :: "tagging_row list \<Rightarrow> int \<Rightarrow> jsstring list" where
  "array_agg_tagName tg pid = map tagName (filter (\<lambda>t. tagging_postId t = pid) tg)"

definition tag_arrays :: "tagging_row list \<Rightarrow> (int \<times> jsstring list) list" where
  "tag_arrays tg = map (\<lambda>pid. (pid, array_agg_tagName tg pid)) (remdups (map tagging_postId tg))"

text \<open>\<^verbatim>\<open>from "posts" as "p" join "files" using ("fileId") join "users" using ("userId")
  join "tag_arrays" using ("postId")\<close>: inner joins, row by row.\<close>

definition joined ::
  "post_row list \<Rightarrow> file_row list \<Rightarrow> user_row list \<Rightarrow> (int \<times> jsstring list option) list
     \<Rightarrow> post_view list" where
  "joined ps fs us tas =
     [project p f u (snd ta).
        p \<leftarrow> ps, f \<leftarrow> fs, fileId f = post_fileId p, u \<leftarrow> us, userId u = post_userId p,
        ta \<leftarrow> tas, fst ta = postId p]"

definition posts_with_tags :: "store \<Rightarrow> post_view list" where
  "posts_with_tags s =
     joined (posts s) (files s) (users s)
       (map (\<lambda>ta. (fst ta, Some (snd ta))) (tag_arrays (taggings s)))"

subsection \<open>Editing a post\<close>

text \<open>The body of \<^verbatim>\<open>PUT /api/posts/edit/:id\<close>.\<close>

record edit_body =
  edit_title :: "jsstring option"
  edit_description :: "jsstring option"
  edit_tags :: "jsstring list option"

definition update_post ::
  "(step \<Rightarrow> bool) \<Rightarrow> jsstring option \<Rightarrow> jsstring \<Rightarrow> int \<Rightarrow> unit statement" where
  "update_post fault t d pid s =
     (if fault PostUpdate then (Inl storage_failure, s)
      else if pid \<in> postId ` set (posts s) then
        (case t of
           None \<Rightarrow> (Inl not_null_violation, s)
         | Some t' \<Rightarrow>
             (Inr (),
              s\<lparr>posts := map (\<lambda>p. if postId p = pid
                                   then p\<lparr>title := t', description := Some d\<rparr> else p)
                            (posts s)\<rparr>))
      else (Inr (), s))"

text \<open>The statement of the handler, with its four parameters in order. Its parts
  \<^verbatim>\<open>update_post\<close>, \<^verbatim>\<open>delete_taggings\<close>, \<^verbatim>\<open>upsert_tags\<close> and \<^verbatim>\<open>add_taggings\<close> and its
  final \<^verbatim>\<open>select\<close> all read the tables as they were before the statement: the deletion
  removes the rows the post had, not the new ones, and the answer is built from the
  post as it was, with the names \<^verbatim>\<open>add_taggings\<close> returns aggregated without grouping
  (one row always, NULL for no name).\<close>

definition edit_sql ::
  "(step \<Rightarrow> bool) \<Rightarrow> jsstring option \<Rightarrow> jsstring \<Rightarrow> jsstring \<Rightarrow> jsstring list
     \<Rightarrow> post_view list statement" where
  "edit_sql fault p1 p2 p3 p4 s =
     (case int4in p3 of
        Inl e \<Rightarrow> (Inl e, s)
      | Inr pid \<Rightarrow>
     (case update_post fault p1 p2 pid s of
        (Inl e, s1) \<Rightarrow> (Inl e, s1)
      | (Inr _, s1) \<Rightarrow>
          if fault TaggingDelete then (Inl storage_failure, s1)
          else
            (let s2 = s1\<lparr>taggings := filter (\<lambda>t. tagging_postId t \<noteq> pid) (taggings s1)\<rparr> in
             if fault TagUpsert then (Inl storage_failure, s2)
             else
               (let s3 = s2\<lparr>tags := upsert_tags (tags s2) p4\<rparr> in
                if fault TaggingInsert then (Inl storage_failure, s3)
                else
                  (let rows = add_taggings pid p4;
                       s4 = s3\<lparr>taggings := taggings s3 @ rows\<rparr> in
                   if list_all (tagging_fkeys s4) rows
                   then (Inr (filter (\<lambda>r. r_postId r = pid)
                                (joined (posts s) (files s) (users s)
                                   [(pid, if p4 = [] then None else Some p4)])), s4)
                   else (Inl foreign_key_violation, s4))))))"

text \<open>The handler: no check of \<^verbatim>\<open>req.params.id\<close>, a TypeError when the body has no
  \<^verbatim>\<open>tags\<close> array, no \<^verbatim>\<open>catch\<close>, and the whole result as the answer.\<close>

definition editId ::
  "(step \<Rightarrow> bool) \<Rightarrow> jsstring \<Rightarrow> edit_body \<Rightarrow> store \<Rightarrow> post_view list reply \<times> store" where
  "editId fault id' body s =
     (let d = (case edit_description body of None \<Rightarrow> [] | Some x \<Rightarrow> x) in
      case edit_tags body of
        None \<Rightarrow> (Failed TypeError, s)
      | Some rawTags \<Rightarrow>
          (let ts = map trim rawTags in
           case db_query (edit_sql fault (edit_title body) d id' ts) s of
             (Inl e, s') \<Rightarrow> (Unhandled (DatabaseError e), s')
           | (Inr r, s') \<Rightarrow> (Json r, s')))"

subsection \<open>Reading posts\<close>

text \<open>The two checks that \<^verbatim>\<open>/api/posts/view/:id\<close>, \<^verbatim>\<open>/api/posts/download/:id\<close> and
  \<^verbatim>\<open>/api/catalog/user/:userId\<close> make on their parameter before anything else.\<close>

definition check_id :: "jsstring \<Rightarrow> js_error option" where
  "check_id id' =
     (if isNaN (ToNumber id') then Some (ClientError 400)
      else if \<not> js_ge (ToNumber id') 1 \<or> \<not> js_le (ToNumber id') 2147483647
      then Some (ClientError 400)
      else None)"

text \<open>\<^verbatim>\<open>GET /api/catalog\<close>: newest first.\<close>

definition catalog_sql :: "post_view list statement" where
  "catalog_sql s = (Inr (sort_key (\<lambda>r. - r_createdAt r) (posts_with_tags s)), s)"

definition catalog :: "store \<Rightarrow> post_view list reply \<times> store" where
  "catalog s =
     (case db_query catalog_sql s of
        (Inl e, s') \<Rightarrow> (Unhandled (DatabaseError e), s')
      | (Inr rows, s') \<Rightarrow> (Json rows, s'))"

text \<open>\<^verbatim>\<open>GET /api/catalog/:offset\<close>: oldest first, twenty rows from the offset, which the
  server reads as a \<^verbatim>\<open>bigint\<close> and refuses when negative.\<close>

definition catalog_offset_sql :: "jsstring \<Rightarrow> post_view list statement" where
  "catalog_offset_sql p1 s =
     (case int8in p1 of
        Inl e \<Rightarrow> (Inl e, s)
      | Inr n \<Rightarrow>
          if n < 0 then (Inl invalid_row_count_in_result_offset_clause, s)
          else (Inr (take 20 (drop (nat n) (sort_key r_createdAt (posts_with_tags s)))), s))"

definition catalog_offset :: "jsstring \<Rightarrow> store \<Rightarrow> post_view list reply \<times> store" where
  "catalog_offset offset s =
     (case db_query (catalog_offset_sql offset) s of
        (Inl e, s') \<Rightarrow> (Unhandled (DatabaseError e), s')
      | (Inr rows, s') \<Rightarrow> (Json rows, s'))"

text \<open>\<^verbatim>\<open>GET /api/posts/view/:id\<close>: the first row, or 404 when there is none.\<close>

definition view_sql :: "jsstring \<Rightarrow> post_view list statement" where
  "view_sql p1 s =
     (case int4in p1 of
        Inl e \<Rightarrow> (Inl e, s)
      | Inr pid \<Rightarrow> (Inr (filter (\<lambda>r. r_postId r = pid) (posts_with_tags s)), s))"

definition viewId :: "jsstring \<Rightarrow> store \<Rightarrow> post_view reply \<times> store" where
  "viewId id' s =
     (case check_id id' of
        Some e \<Rightarrow> (Failed e, s)
      | None \<Rightarrow>
          (case db_query (view_sql id') s of
             (Inl e, s') \<Rightarrow> (Failed (DatabaseError e), s')
           | (Inr [], s') \<Rightarrow> (Failed (ClientError 404), s')
           | (Inr (entry # _), s') \<Rightarrow> (Json entry, s')))"

text \<open>\<^verbatim>\<open>GET /api/catalog/user/:userId\<close>: the user with the posts of \<^verbatim>\<open>formatted_posts\<close>
  collected by \<^verbatim>\<open>json_agg\<close>, NULL for a user none of whose posts is there.\<close>

record user_view =
  uv_username :: jsstring
  uv_userId :: int
  uv_posts :: "post_view list option"

definition catalog_user_sql :: "jsstring \<Rightarrow> user_view list statement" where
  "catalog_user_sql p1 s =
     (case int4in p1 of
        Inl e \<Rightarrow> (Inl e, s)
      | Inr uid \<Rightarrow>
          (let formatted_posts = sort_key (\<lambda>r. - r_createdAt r) (posts_with_tags s) in
           (Inr [\<lparr>uv_username = username u, uv_userId = userId u,
                   uv_posts = (let ps = filter (\<lambda>r. r_userId r = userId u) formatted_posts
                               in if ps = [] then None else Some ps)\<rparr>.
                 u \<leftarrow> users s, userId u = uid], s)))"

definition catalog_user :: "jsstring \<Rightarrow> store \<Rightarrow> user_view reply \<times> store" where
  "catalog_user id' s =
     (case check_id id' of
        Some e \<Rightarrow> (Failed e, s)
      | None \<Rightarrow>
          (case db_query (catalog_user_sql id') s of
             (Inl e, s') \<Rightarrow> (Failed (DatabaseError e), s')
           | (Inr [], s') \<Rightarrow> (Failed (ClientError 404), s')
           | (Inr (user # _), s') \<Rightarrow> (Json user, s')))"

subsection \<open>Downloading the file of a post\<close>

text \<open>Every JavaScript object is truthy, an empty array too.\<close>

definition truthy :: "'a list \<Rightarrow> bool" where
  "truthy rows = True"

definition download_sql :: "jsstring \<Rightarrow> (jsstring \<times> jsstring) list statement" where
  "download_sql p1 s =
     (case int4in p1 of
        Inl e \<Rightarrow> (Inl e, s)
      | Inr pid \<Rightarrow>
          (Inr [(fileObjectKey f, title p).
                  p \<leftarrow> posts s, f \<leftarrow> files s, fileId f = post_fileId p, postId p = pid], s))"

text \<open>\<^verbatim>\<open>GET /api/posts/download/:id\<close>. \<open>download\<close> is the function of the storage
  middleware that signs a time-limited locator for a key and a file name. The 404 answer
  hangs on \<^verbatim>\<open>!reSQL.rows\<close>; taking the first row of an empty result throws inside the
  promise, which has no \<^verbatim>\<open>catch\<close>.\<close>

definition downloadId ::
  "(jsstring \<Rightarrow> jsstring \<Rightarrow> jsstring) \<Rightarrow> jsstring \<Rightarrow> store \<Rightarrow> unit reply \<times> store" where
  "downloadId download id' s =
     (case check_id id' of
        Some e \<Rightarrow> (Failed e, s)
      | None \<Rightarrow>
          (case db_query (download_sql id') s of
             (Inl e, s') \<Rightarrow> (Unhandled (DatabaseError e), s')
           | (Inr rows, s') \<Rightarrow>
               if \<not> truthy rows then (Failed (ClientError 404), s')
               else (case rows of
                       [] \<Rightarrow> (Unhandled TypeError, s')
                     | (key, t) # _ \<Rightarrow> (Redirect (download key (t @ ''.sar'')), s'))))"

subsection \<open>Searching\<close>

text \<open>
  The text search functions of PostgreSQL that the statement calls are parameters of the
  model: what they compute depends on the text search configuration of the server. All
  of them are strict (NULL for a NULL argument). The rank is a \<^verbatim>\<open>real\<close>, kept as the
  rational number it is; no \<^verbatim>\<open>real\<close> lies between \<open>1/100\<close> and the double the literal
  \<^verbatim>\<open>0.01\<close> is read as, so the comparison of the statement is the comparison with
  \<open>1/100\<close>.
\<close>

datatype weight = Weight_A | Weight_B | Weight_C | Weight_D

record ('v, 'q) text_search =
  to_tsvector :: "jsstring \<Rightarrow> 'v"
  setweight :: "'v \<Rightarrow> weight \<Rightarrow> 'v"
  tsvector_concat :: "'v \<Rightarrow> 'v \<Rightarrow> 'v"
  tsvector_empty :: "'v"
  plainto_tsquery :: "jsstring \<Rightarrow> 'q"
  ts_rank :: "'v \<Rightarrow> 'q \<Rightarrow> rat"

record columnsConfig =
  col_title :: bool
  col_description :: bool
  col_tags :: bool
  col_username :: bool

record search_row = post_view +
  ranks :: "rat option"

text \<open>\<^verbatim>\<open>!query\<close> on a query parameter: missing or empty.\<close>

definition falsy :: "jsstring option \<Rightarrow> bool" where
  "falsy x \<longleftrightarrow> x = None \<or> x = Some []"

text \<open>\<^verbatim>\<open>array_to_string(array_agg("tagName"), ' ')\<close>.\<close>

fun array_to_string :: "jsstring list \<Rightarrow> jsstring \<Rightarrow> jsstring" where
  "array_to_string [] sep = []"
| "array_to_string [x] sep = x"
| "array_to_string (x # y # ys) sep = x @ sep @ array_to_string (y # ys) sep"

definition strict :: "('a \<Rightarrow> 'b \<Rightarrow> 'c) \<Rightarrow> 'a option \<Rightarrow> 'b option \<Rightarrow> 'c option" where
  "strict f x y = (case x of None \<Rightarrow> None | Some a \<Rightarrow> map_option (f a) y)"

text \<open>The \<^verbatim>\<open>weights\<close> column of \<^verbatim>\<open>weighted_posts\<close>: the vectors of the enabled columns
  and the empty vector \<^verbatim>\<open>''\<close>, concatenated from the left.\<close>

definition weights ::
  "('v, 'q) text_search \<Rightarrow> columnsConfig \<Rightarrow> jsstring \<Rightarrow> jsstring option \<Rightarrow> jsstring
     \<Rightarrow> jsstring \<Rightarrow> 'v option" where
  "weights ts cfg t d tagSearch name =
     (let operands =
        (if col_title cfg then [Some (setweight ts (to_tsvector ts t) Weight_A)] else []) @
        (if col_description cfg
         then [map_option (\<lambda>x. setweight ts (to_tsvector ts x) Weight_B) d] else []) @
        (if col_tags cfg then [Some (setweight ts (to_tsvector ts tagSearch) Weight_C)] else []) @
        (if col_username cfg then [Some (setweight ts (to_tsvector ts name) Weight_D)] else []) @
        [Some (tsvector_empty ts)]
      in case operands of
           [] \<Rightarrow> None
         | x # xs \<Rightarrow> foldl (strict (tsvector_concat ts)) x xs)"

text \<open>\<^verbatim>\<open>search_ranking\<close>: for each row of \<^verbatim>\<open>posts\<close> joined with \<^verbatim>\<open>users\<close> and
  \<^verbatim>\<open>tag_arrays\<close>, the post identity and the rank of its weights against the query.\<close>

definition search_ranking ::
  "('v, 'q) text_search \<Rightarrow> columnsConfig \<Rightarrow> jsstring \<Rightarrow> store \<Rightarrow> (int \<times> rat option) list" where
  "search_ranking ts cfg query s =
     [(postId p,
       map_option (\<lambda>w. ts_rank ts w (plainto_tsquery ts query))
         (weights ts cfg (title p) (description p)
            (array_to_string (snd ta) '' '') (username u))).
        p \<leftarrow> posts s, u \<leftarrow> users s, userId u = post_userId p,
        ta \<leftarrow> tag_arrays (taggings s), fst ta = postId p]"

text \<open>The final \<^verbatim>\<open>select\<close>: \<^verbatim>\<open>search_ranking\<close> joined with \<^verbatim>\<open>posts\<close>, \<^verbatim>\<open>files\<close>,
  \<^verbatim>\<open>users\<close> and \<^verbatim>\<open>tag_arrays\<close>; then
  \<^verbatim>\<open>where "ranks" > 0.01 order by "ranks" desc limit 20\<close> (NULL is not greater than
  anything).\<close>

definition search_joined ::
  "('v, 'q) text_search \<Rightarrow> columnsConfig \<Rightarrow> jsstring \<Rightarrow> store \<Rightarrow> search_row list" where
  "search_joined ts cfg p1 s =
     [post_view.extend (project p f u (Some (snd ta))) \<lparr>ranks = snd sr\<rparr>.
        sr \<leftarrow> search_ranking ts cfg p1 s,
        p \<leftarrow> posts s, postId p = fst sr,
        f \<leftarrow> files s, fileId f = post_fileId p,
        u \<leftarrow> users s, userId u = post_userId p,
        ta \<leftarrow> tag_arrays (taggings s), fst ta = postId p]"

definition search_sql ::
  "('v, 'q) text_search \<Rightarrow> columnsConfig \<Rightarrow> jsstring \<Rightarrow> search_row list statement" where
  "search_sql ts cfg p1 s =
     (Inr (take 20
             (sort_key (\<lambda>r. map_option uminus (ranks r))
                (filter (\<lambda>r. case ranks r of None \<Rightarrow> False | Some x \<Rightarrow> 1 / 100 < x)
                   (search_joined ts cfg p1 s)))),
      s)"

text \<open>\<^verbatim>\<open>columnsConfig\<close>: which of the four columns the parameter \<^verbatim>\<open>cols\<close> names.\<close>

definition columnsConfig_of :: "jsstring \<Rightarrow> columnsConfig" where
  "columnsConfig_of columns =
     (let columnsArray = split columns comma in
      \<lparr>col_title = js_includes columnsArray ''title'',
       col_description = js_includes columnsArray ''description'',
       col_tags = js_includes columnsArray ''tags'',
       col_username = js_includes columnsArray ''username''\<rparr>)"

text \<open>\<^verbatim>\<open>GET /api/posts/search\<close> with the query parameters \<^verbatim>\<open>q\<close> and \<^verbatim>\<open>cols\<close>.\<close>

definition search ::
  "('v, 'q) text_search \<Rightarrow> jsstring option \<Rightarrow> jsstring option \<Rightarrow> store
     \<Rightarrow> search_row list reply \<times> store" where
  "search ts q cols s =
     (if falsy q then (Failed (ClientError 400), s)
      else if falsy cols then (Failed (ClientError 400), s)
      else
        (let query = (case q of Some x \<Rightarrow> x | None \<Rightarrow> []);
             columns = (case cols of Some x \<Rightarrow> x | None \<Rightarrow> []);
             cfg = columnsConfig_of columns in
         if \<not> col_title cfg \<and> \<not> col_description cfg \<and> \<not> col_tags cfg \<and> \<not> col_username cfg
         then (Failed (ClientError 400), s)
         else (case db_query (search_sql ts cfg query) s of
                 (Inl e, s') \<Rightarrow> (Failed (DatabaseError e), s')
               | (Inr rows, s') \<Rightarrow> (Json rows, s'))))"

text \<open>The ranking of an answer: the post identities with their ranks, in order. And two
  stores that differ at most in columns that are not enabled: the same rows in \<^verbatim>\<open>posts\<close>,
  \<^verbatim>\<open>users\<close>, \<^verbatim>\<open>files\<close> and \<^verbatim>\<open>tag_arrays\<close> by their keys, with the same title,
  description, user name and tag names wherever that column is enabled.\<close>

definition ranking :: "search_row list \<Rightarrow> (int \<times> rat option) list" where
  "ranking rows = map (\<lambda>r. (r_postId r, ranks r)) rows"

definition same_enabled :: "columnsConfig \<Rightarrow> store \<Rightarrow> store \<Rightarrow> bool" where
  "same_enabled cfg s s' \<longleftrightarrow>
     list_all2 (\<lambda>p p'. postId p' = postId p \<and> post_fileId p' = post_fileId p \<and>
                  post_userId p' = post_userId p \<and>
                  (col_title cfg \<longrightarrow> title p' = title p) \<and>
                  (col_description cfg \<longrightarrow> description p' = description p))
        (posts s) (posts s')
     \<and> list_all2 (\<lambda>u u'. userId u' = userId u \<and> (col_username cfg \<longrightarrow> username u' = username u))
          (users s) (users s')
     \<and> map fileId (files s') = map fileId (files s)
     \<and> list_all2 (\<lambda>a a'. fst a' = fst a \<and> (col_tags cfg \<longrightarrow> snd a' = snd a))
          (tag_arrays (taggings s)) (tag_arrays (taggings s'))"

section \<open>Sequences of requests\<close>

text \<open>The two writing requests, each with the faults of the store while it runs, and the
  store after a list of them. \<open>tag_array\<close> is the array of names the handler of a
  request sends as its last parameter.\<close>

datatype request =
    Upload "step \<Rightarrow> bool" int upload_request
  | Edit "step \<Rightarrow> bool" jsstring edit_body

fun serve :: "request \<Rightarrow> store \<Rightarrow> store" where
  "serve (Upload fault now req) s = snd (upload fault now req s)"
| "serve (Edit fault id' body) s = snd (editId fault id' body s)"

definition run :: "request list \<Rightarrow> store \<Rightarrow> store" where
  "run rs s = foldl (\<lambda>s' r. serve r s') s rs"

fun tag_array :: "request \<Rightarrow> jsstring list" where
  "tag_array (Upload fault now req) =
     (case body_tags req of None \<Rightarrow> [] | Some rawTags \<Rightarrow> map trim (split rawTags comma))"
| "tag_array (Edit fault id' body) =
     (case edit_tags body of None \<Rightarrow> [] | Some rawTags \<Rightarrow> map trim rawTags)"

section \<open>A store and a text search for the examples\<close>

text \<open>Rows 2 and 4 of the database dump with their taggings and tags, the one user of
  the dump, and the sequences as the dump sets them.\<close>

definition dump :: store where
  "dump =
     \<lparr>files =
        [\<lparr>fileId = 2, fileObjectKey = ''f5cd4963-56f9-4b29-be87-82fb4f651281.sar'',
          previewImagePath = ''https://symbol-art-vault.s3.us-west-1.amazonaws.com/f5cd4963-56f9-4b29-be87-82fb4f651281.png'',
          filePropsName = Some ''Flash Player'', filePropsSound = Some 9,
          filePropsLayerCount = Some 53\<rparr>,
         \<lparr>fileId = 4, fileObjectKey = ''d2b28056-4bf0-449b-9f98-e5f77ccaf9fc.sar'',
          previewImagePath = ''https://symbol-art-vault.s3.us-west-1.amazonaws.com/d2b28056-4bf0-449b-9f98-e5f77ccaf9fc.png'',
          filePropsName = Some ''Drake'', filePropsSound = Some 7,
          filePropsLayerCount = Some 79\<rparr>],
      posts =
        [\<lparr>postId = 2, post_fileId = 2, post_userId = 1, post_createdAt = 1654213614062517,
          title = ''Adobe Flash Player'', description = Some ''Like the old days...''\<rparr>,
         \<lparr>postId = 4, post_fileId = 4, post_userId = 1, post_createdAt = 1654213670458160,
          title = ''Lobby Grinding >>>>'', description = Some ''Drake Meme but epic''\<rparr>],
      taggings =
        [\<lparr>tagName = ''flash'', tagging_postId = 2\<rparr>,
         \<lparr>tagName = ''2000s'', tagging_postId = 2\<rparr>,
         \<lparr>tagName = ''drake meme'', tagging_postId = 4\<rparr>,
         \<lparr>tagName = ''meme forma'', tagging_postId = 4\<rparr>],
      tags = [''flash'', ''2000s'', ''drake meme'', ''meme forma''],
      users =
        [\<lparr>userId = 1, username = ''admin'', hashedPassword = ''fakepassword'',
          user_createdAt = 1654213222180351\<rparr>],
      files_fileId_seq = 8,
      posts_postId_seq = 8,
      statements = 0\<rparr>"

text \<open>No step fails.\<close>

definition no_fault :: "step \<Rightarrow> bool" where
  "no_fault st = False"

text \<open>A creation request of an anonymous caller, an edit of a post and an edit that
  takes all the tags of post 2 away and leaves its title and description as they are.\<close>

definition example_upload :: upload_request where
  "example_upload =
     \<lparr>req_userId = None,
      sar_key = Some ''0d1f.sar'',
      thumbnail_location = Some ''https://symbol-art-vault.s3.us-west-1.amazonaws.com/0d1f.png'',
      body_title = Some ''Drake'',
      body_tags = Some ''pso2, pso2 , meme,  '',
      body_description = None,
      body_filePropsSound = Some ''7'',
      body_filePropsLayerCount = Some ''79'',
      body_filePropsName = Some ''Drake''\<rparr>"

definition example_edit :: edit_body where
  "example_edit =
     \<lparr>edit_title = Some ''Flash'',
      edit_description = Some ''old days'',
      edit_tags = Some ['' flash'', ''flash '', ''pso2'', []]\<rparr>"

definition untag_edit :: edit_body where
  "untag_edit =
     \<lparr>edit_title = Some ''Adobe Flash Player'',
      edit_description = Some ''Like the old days...'',
      edit_tags = Some []\<rparr>"

text \<open>The rows the creation request adds to the dump, and the dump after the edit that
  takes the tags of post 2 away.\<close>

definition example_post :: post_row where
  "example_post =
     \<lparr>postId = 9, post_fileId = 9, post_userId = 1, post_createdAt = 1654300000000000,
      title = ''Drake'', description = Some []\<rparr>"

definition example_file :: file_row where
  "example_file =
     \<lparr>fileId = 9, fileObjectKey = ''0d1f.sar'',
      previewImagePath = ''https://symbol-art-vault.s3.us-west-1.amazonaws.com/0d1f.png'',
      filePropsName = Some ''Drake'', filePropsSound = Some 7,
      filePropsLayerCount = Some 79\<rparr>"

definition untagged :: store where
  "untagged = snd (editId no_fault ''2'' untag_edit dump)"

text \<open>A text search to run the examples with: a vector is the list of the words of the
  text between spaces, each with a weight; the rank of a vector is the sum of the weights
  (1, 4/10, 2/10, 1/10) of its words that the query has.\<close>

definition weight_value :: "weight \<Rightarrow> rat" where
  "weight_value w =
     (case w of Weight_A \<Rightarrow> 1 | Weight_B \<Rightarrow> 4 / 10 | Weight_C \<Rightarrow> 2 / 10 | Weight_D \<Rightarrow> 1 / 10)"

definition wordlist :: "jsstring \<Rightarrow> jsstring list" where
  "wordlist t = filter (\<lambda>w. w \<noteq> []) (split t CHR '' '')"

definition words_search :: "((jsstring \<times> weight) list, jsstring list) text_search" where
  "words_search =
     \<lparr>to_tsvector = (\<lambda>t. map (\<lambda>w. (w, Weight_D)) (wordlist t)),
      setweight = (\<lambda>v w. map (\<lambda>x. (fst x, w)) v),
      tsvector_concat = (\<lambda>a b. a @ b),
      tsvector_empty = [],
      plainto_tsquery = wordlist,
      ts_rank = (\<lambda>v q. sum_list (map (\<lambda>x. weight_value (snd x)) (filter (\<lambda>x. fst x \<in> set q) v)))\<rparr>"

section \<open>The statement as a transaction\<close>

lemma db_query_error:
  "db_query sql s = (Inl e, s') \<Longrightarrow>
     files s' = files s \<and> posts s' = posts s \<and> tags s' = tags s \<and>
     taggings s' = taggings s \<and> users s' = users s"
  by (auto simp: db_query_def Let_def split: prod.splits sum.splits)

lemma db_query_Inl:
  "fst (sql (s\<lparr>statements := statements s + 1\<rparr>)) = Inl e \<Longrightarrow> fst (db_query sql s) = Inl e"
  by (auto simp: db_query_def Let_def split: prod.splits sum.splits)

section \<open>Creating a post is all or nothing\<close>

lemma upload_sql_fault:
  "fault AssetInsert \<or> fault PostInsert \<or> fault TagUpsert \<or> fault TaggingInsert \<Longrightarrow>
   \<exists>e. fst (upload_sql fault now p1 p2 p3 p4 p5 p6 p7 p8 p9 s) = Inl e"
  by (auto simp: upload_sql_def new_file_def new_post_def Let_def
           split: sum.splits prod.splits option.splits)

text \<open>
  Claim C1. A creation request in which the store fails in the asset insert, the post
  insert, the tag upsert or the tagging insert does not end with the JSON answer; and
  after every creation request that does not end with the JSON answer (one of these
  faults, a constraint, a malformed parameter, an exhausted sequence, a TypeError before
  the statement), the tables \<^verbatim>\<open>files\<close>, \<^verbatim>\<open>posts\<close>, \<^verbatim>\<open>tags\<close>, \<^verbatim>\<open>taggings\<close> and
  \<^verbatim>\<open>users\<close> are what they were before it. The whole write is one statement, and the
  statement is one transaction. (The two sequences keep what \<^verbatim>\<open>nextval\<close> took: no row
  shows it.)
\<close>

theorem upload_all_or_nothing:
  assumes "upload fault now req s = (r, s')"
  shows "(fault AssetInsert \<or> fault PostInsert \<or> fault TagUpsert \<or> fault TaggingInsert
            \<longrightarrow> (\<forall>rows. r \<noteq> Json rows))
       \<and> ((\<forall>rows. r \<noteq> Json rows) \<longrightarrow>
            files s' = files s \<and> posts s' = posts s \<and> tags s' = tags s \<and>
            taggings s' = taggings s \<and> users s' = users s)"
proof (intro conjI impI)
  assume f: "fault AssetInsert \<or> fault PostInsert \<or> fault TagUpsert \<or> fault TaggingInsert"
  show "\<forall>rows. r \<noteq> Json rows"
  proof (cases "sar_key req")
    case None
    with assms show ?thesis by (auto simp: upload_def)
  next
    case (Some key)
    show ?thesis
    proof (cases "thumbnail_location req")
      case None
      with Some assms show ?thesis by (auto simp: upload_def)
    next
      case loc: (Some loc)
      show ?thesis
      proof (cases "body_tags req")
        case None
        with Some loc assms show ?thesis by (auto simp: upload_def)
      next
        case raw: (Some raw)
        let ?sql = "upload_sql fault now key loc (body_filePropsSound req)
                      (body_filePropsName req) (body_filePropsLayerCount req)
                      (case req_userId req of None \<Rightarrow> 1 | Some u \<Rightarrow> u) (body_title req)
                      (case body_description req of None \<Rightarrow> [] | Some x \<Rightarrow> x)
                      (map trim (split raw comma))"
        from upload_sql_fault[OF f]
        obtain e where "fst (?sql (s\<lparr>statements := statements s + 1\<rparr>)) = Inl e"
          by blast
        then have "fst (db_query ?sql s) = Inl e"
          by (rule db_query_Inl)
        with Some loc raw assms show ?thesis
          by (auto simp: upload_def Let_def split: prod.splits sum.splits)
      qed
    qed
  qed
next
  assume nj: "\<forall>rows. r \<noteq> Json rows"
  from assms nj show "files s' = files s"
    by (auto simp: upload_def Let_def split: option.splits prod.splits sum.splits
             dest: db_query_error)
  from assms nj show "posts s' = posts s"
    by (auto simp: upload_def Let_def split: option.splits prod.splits sum.splits
             dest: db_query_error)
  from assms nj show "tags s' = tags s"
    by (auto simp: upload_def Let_def split: option.splits prod.splits sum.splits
             dest: db_query_error)
  from assms nj show "taggings s' = taggings s"
    by (auto simp: upload_def Let_def split: option.splits prod.splits sum.splits
             dest: db_query_error)
  from assms nj show "users s' = users s"
    by (auto simp: upload_def Let_def split: option.splits prod.splits sum.splits
             dest: db_query_error)
qed

text \<open>The store of the dump fails in the tagging insert of a creation request: no answer,
  two sequence values gone, every table as before.\<close>

theorem upload_all_or_nothing_witness:
  "upload (\<lambda>st. st = TaggingInsert) 1654300000000000 example_upload dump =
     (Unhandled (DatabaseError storage_failure),
      dump\<lparr>files_fileId_seq := 9, posts_postId_seq := 9, statements := 1\<rparr>)
   \<and> files (dump\<lparr>files_fileId_seq := 9, posts_postId_seq := 9, statements := 1\<rparr>) = files dump
   \<and> posts (dump\<lparr>files_fileId_seq := 9, posts_postId_seq := 9, statements := 1\<rparr>) = posts dump
   \<and> tags (dump\<lparr>files_fileId_seq := 9, posts_postId_seq := 9, statements := 1\<rparr>) = tags dump
   \<and> taggings (dump\<lparr>files_fileId_seq := 9, posts_postId_seq := 9, statements := 1\<rparr>)
       = taggings dump
   \<and> users (dump\<lparr>files_fileId_seq := 9, posts_postId_seq := 9, statements := 1\<rparr>) = users dump"
proof -
  have run: "upload (\<lambda>st. st = TaggingInsert) 1654300000000000 example_upload dump =
     (Unhandled (DatabaseError storage_failure),
      dump\<lparr>files_fileId_seq := 9, posts_postId_seq := 9, statements := 1\<rparr>)"
    by code_simp
  have "\<forall>rows. Unhandled (DatabaseError storage_failure) \<noteq> Json rows"
    by simp
  with upload_all_or_nothing[OF run] run show ?thesis
    by blast
qed

section \<open>Search results\<close>

lemma db_query_Inr:
  "db_query sql s = (Inr r, s') \<Longrightarrow> sql (s\<lparr>statements := statements s + 1\<rparr>) = (Inr r, s')"
  by (auto simp: db_query_def Let_def split: prod.splits sum.splits)

text \<open>What \<^verbatim>\<open>where "ranks" > 0.01 order by "ranks" desc limit 20\<close> leaves of any rows.\<close>

lemma ranked_rows:
  fixes xs :: "search_row list"
  defines "ys \<equiv> take 20 (sort_key (\<lambda>r. map_option uminus (ranks r))
                 (filter (\<lambda>r. case ranks r of None \<Rightarrow> False | Some x \<Rightarrow> 1 / 100 < x) xs))"
  shows "\<exists>rs. map ranks ys = map Some rs \<and> (\<forall>x\<in>set rs. 1 / 100 < x) \<and> sorted (rev rs) \<and>
              length ys \<le> 20"
proof -
  let ?k = "\<lambda>r::search_row. map_option uminus (ranks r)"
  let ?f = "\<lambda>r::search_row. case ranks r of None \<Rightarrow> 0 | Some x \<Rightarrow> x"
  let ?kept = "filter (\<lambda>r. case ranks r of None \<Rightarrow> False | Some x \<Rightarrow> 1 / 100 < x) xs"
  have above: "\<exists>x. ranks r = Some x \<and> 1 / 100 < x" if "r \<in> set ys" for r
  proof -
    from that have "r \<in> set (sort_key ?k ?kept)"
      unfolding ys_def by (rule in_set_takeD)
    then show ?thesis by (auto split: option.splits)
  qed
  have "sorted (map ?k (sort_key ?k ?kept))"
    by (rule sorted_sort_key)
  then have "sorted (take 20 (map ?k (sort_key ?k ?kept)))"
    by (rule sorted_wrt_take)
  then have sk: "sorted (map ?k ys)"
    by (simp add: ys_def take_map)
  have "?k r = Some (- ?f r)" if "r \<in> set ys" for r
    using above[OF that] by auto
  then have keq: "map ?k ys = map (\<lambda>r. Some (- ?f r)) ys"
    by simp
  have "sorted (map (\<lambda>r. Some (- ?f r)) ys)"
    using sk keq by simp
  then have "sorted_wrt (\<lambda>a b. ?f b \<le> ?f a) ys"
    by (simp add: sorted_wrt_map)
  then have desc: "sorted (rev (map ?f ys))"
    by (simp add: sorted_wrt_rev sorted_wrt_map)
  have "ranks r = Some (?f r) \<and> 1 / 100 < ?f r" if "r \<in> set ys" for r
    using above[OF that] by auto
  then have req: "map ranks ys = map Some (map ?f ys)"
    and gt: "\<forall>x\<in>set (map ?f ys). 1 / 100 < x"
    by simp_all
  have "length ys \<le> 20"
    by (simp add: ys_def)
  with req gt desc show ?thesis
    by blast
qed

text \<open>
  Claim C5. When a search request passes the checks of the handler and its statement
  returns, the rows of the answer all have a rank, every rank is greater than
  \<open>1/100\<close>, the ranks are in descending order, and there are at most twenty rows. This
  holds for every text search, that is whatever the server's functions compute.
\<close>

theorem search_rank_order_limit:
  assumes "search ts q cols s = (Json rows, s')"
  shows "\<exists>rs. map ranks rows = map Some rs \<and> (\<forall>x\<in>set rs. 1 / 100 < x) \<and> sorted (rev rs) \<and>
              length rows \<le> 20"
proof -
  from assms obtain cfg query s0 where "search_sql ts cfg query s0 = (Inr rows, s')"
    by (auto simp: search_def Let_def split: if_splits prod.splits sum.splits
             dest: db_query_Inr)
  then show ?thesis
    using ranked_rows by (auto simp: search_sql_def Let_def)
qed

text \<open>A search of the dump in titles and tags: post 2 has the word \<^verbatim>\<open>Flash\<close> in its title
  (rank 1), post 4 the word \<^verbatim>\<open>meme\<close> twice in its tags (rank 2/5).\<close>

theorem search_rank_order_limit_witness:
  "search words_search (Some ''meme Flash'') (Some ''title,tags'') dump =
     (Json [post_view.extend
              (project (posts dump ! 0) (files dump ! 0) (users dump ! 0)
                 (Some [''flash'', ''2000s'']))
              \<lparr>ranks = Some 1\<rparr>,
            post_view.extend
              (project (posts dump ! 1) (files dump ! 1) (users dump ! 0)
                 (Some [''drake meme'', ''meme forma'']))
              \<lparr>ranks = Some (2 / 5)\<rparr>],
      dump\<lparr>statements := 1\<rparr>)
   \<and> (\<exists>rs::rat list. [Some 1, Some (2 / 5)] = map Some rs \<and> (\<forall>x\<in>set rs. 1 / 100 < x) \<and>
             sorted (rev rs) \<and> Suc (Suc 0) \<le> 20)"
proof -
  have run: "search words_search (Some ''meme Flash'') (Some ''title,tags'') dump =
     (Json [post_view.extend
              (project (posts dump ! 0) (files dump ! 0) (users dump ! 0)
                 (Some [''flash'', ''2000s'']))
              \<lparr>ranks = Some 1\<rparr>,
            post_view.extend
              (project (posts dump ! 1) (files dump ! 1) (users dump ! 0)
                 (Some [''drake meme'', ''meme forma'']))
              \<lparr>ranks = Some (2 / 5)\<rparr>],
      dump\<lparr>statements := 1\<rparr>)"
    by code_simp
  from search_rank_order_limit[OF run]
  have "\<exists>rs::rat list. [Some 1, Some (2 / 5)] = map Some rs \<and> (\<forall>x\<in>set rs. 1 / 100 < x) \<and>
             sorted (rev rs) \<and> Suc (Suc 0) \<le> 20"
    by (simp add: post_view.extend_def)
  with run show ?thesis
    by (rule conjI)
qed

section \<open>What an edit leaves alone\<close>

lemma update_post_Inr:
  "update_post fault t d pid s = (Inr u, s') \<Longrightarrow>
     (posts s' = posts s \<or>
      (\<exists>t'. posts s' = map (\<lambda>p. if postId p = pid
                                 then p\<lparr>title := t', description := Some d\<rparr> else p) (posts s)))
     \<and> files s' = files s \<and> users s' = users s \<and> tags s' = tags s \<and> taggings s' = taggings s"
  by (auto simp: update_post_def split: if_splits option.splits)

text \<open>The store after the statement of an edit that did not fail.\<close>

lemma edit_sql_Inr:
  assumes "edit_sql fault p1 p2 p3 p4 s = (Inr r, s')"
  shows "\<exists>pid. int4in p3 = Inr pid
     \<and> (posts s' = posts s \<or>
        (\<exists>t'. posts s' = map (\<lambda>p. if postId p = pid
                                   then p\<lparr>title := t', description := Some p2\<rparr> else p) (posts s)))
     \<and> files s' = files s \<and> users s' = users s
     \<and> tags s' = upsert_tags (tags s) p4
     \<and> taggings s' = filter (\<lambda>t. tagging_postId t \<noteq> pid) (taggings s) @ add_taggings pid p4"
proof -
  from assms obtain pid where pid: "int4in p3 = Inr pid"
    by (auto simp: edit_sql_def split: sum.splits)
  from assms pid obtain s1 u where up: "update_post fault p1 p2 pid s = (Inr u, s1)"
    by (auto simp: edit_sql_def split: sum.splits prod.splits)
  from assms pid up have "posts s' = posts s1" "files s' = files s1" "users s' = users s1"
    "tags s' = upsert_tags (tags s1) p4"
    "taggings s' = filter (\<lambda>t. tagging_postId t \<noteq> pid) (taggings s1) @ add_taggings pid p4"
    by (auto simp: edit_sql_def Let_def split: if_splits)
  with update_post_Inr[OF up] pid show ?thesis
    by auto
qed

text \<open>
  Claim C10. After an edit request, whatever its outcome, the table \<^verbatim>\<open>posts\<close> has the
  same rows in the same places with the same post identity, file identity, user
  identity and creation time as before; a row whose identity the request does not name is
  the same in every column; and the tables \<^verbatim>\<open>files\<close> and \<^verbatim>\<open>users\<close> are unchanged.
  Only the title and the description of the named post, and the taggings and tags, can
  differ.
\<close>

theorem edit_keeps_references:
  assumes "editId fault id' body s = (r, s')"
  shows "list_all2 (\<lambda>p p'. postId p' = postId p \<and> post_fileId p' = post_fileId p \<and>
                     post_userId p' = post_userId p \<and> post_createdAt p' = post_createdAt p \<and>
                     (int4in id' \<noteq> Inr (postId p) \<longrightarrow> p' = p))
           (posts s) (posts s')
         \<and> files s' = files s \<and> users s' = users s"
proof -
  let ?P = "\<lambda>p p'. postId p' = postId p \<and> post_fileId p' = post_fileId p \<and>
                     post_userId p' = post_userId p \<and> post_createdAt p' = post_createdAt p \<and>
                     (int4in id' \<noteq> Inr (postId p) \<longrightarrow> p' = p)"
  have same: "list_all2 ?P (posts s) (posts s)"
    by (simp add: list_all2_same)
  consider (unchanged) "posts s' = posts s" "files s' = files s" "users s' = users s"
    | (written) d ts rows where
        "edit_sql fault (edit_title body) d id' ts (s\<lparr>statements := statements s + 1\<rparr>)
           = (Inr rows, s')"
    using assms
    by (auto simp: editId_def Let_def split: option.splits prod.splits sum.splits
             dest: db_query_error db_query_Inr)
  then show ?thesis
  proof cases
    case unchanged
    with same show ?thesis by simp
  next
    case written
    from edit_sql_Inr[OF written] obtain pid where pid: "int4in id' = Inr pid"
      and ps: "posts s' = posts s \<or>
        (\<exists>t'. posts s' = map (\<lambda>p. if postId p = pid
                                   then p\<lparr>title := t', description := Some d\<rparr> else p) (posts s))"
      and fu: "files s' = files s" "users s' = users s"
      by auto
    from ps have "list_all2 ?P (posts s) (posts s')"
    proof
      assume "posts s' = posts s"
      with same show ?thesis by simp
    next
      assume "\<exists>t'. posts s' = map (\<lambda>p. if postId p = pid
                                   then p\<lparr>title := t', description := Some d\<rparr> else p) (posts s)"
      then obtain t' where
        "posts s' = map (\<lambda>p. if postId p = pid
                              then p\<lparr>title := t', description := Some d\<rparr> else p) (posts s)"
        by blast
      then show ?thesis
        using pid by (simp add: list_all2_map2 list_all2_same)
    qed
    with fu show ?thesis by simp
  qed
qed

text \<open>An edit of post 2 of the dump: its title and description change, post 4 does not.\<close>

theorem edit_keeps_references_witness:
  "map title (posts (snd (editId no_fault ''2'' example_edit dump))) =
     [''Flash'', ''Lobby Grinding >>>>'']
   \<and> list_all2 (\<lambda>p p'. postId p' = postId p \<and> post_fileId p' = post_fileId p \<and>
                  post_userId p' = post_userId p \<and> post_createdAt p' = post_createdAt p \<and>
                  (int4in ''2'' \<noteq> Inr (postId p) \<longrightarrow> p' = p))
        (posts dump) (posts (snd (editId no_fault ''2'' example_edit dump)))
   \<and> files (snd (editId no_fault ''2'' example_edit dump)) = files dump
   \<and> users (snd (editId no_fault ''2'' example_edit dump)) = users dump"
proof -
  have "map title (posts (snd (editId no_fault ''2'' example_edit dump))) =
     [''Flash'', ''Lobby Grinding >>>>'']"
    by code_simp
  moreover have "editId no_fault ''2'' example_edit dump =
      (fst (editId no_fault ''2'' example_edit dump),
       snd (editId no_fault ''2'' example_edit dump))"
    by simp
  note edit_keeps_references[OF this]
  ultimately show ?thesis
    by (rule conjI)
qed

section \<open>The tag vocabulary\<close>

lemma distinct_upsert_tags: "distinct tbl \<Longrightarrow> distinct (upsert_tags tbl ts)"
  by (induction ts arbitrary: tbl) auto

lemma upsert_tags_present: "set ts \<subseteq> set tbl \<Longrightarrow> upsert_tags tbl ts = tbl"
  by (induction ts arbitrary: tbl) auto

lemma set_upsert_tags: "set (upsert_tags tbl ts) = set tbl \<union> set ts"
  by (induction ts arbitrary: tbl) auto

lemma new_file_Inr:
  "new_file fault key loc sound name layers s = (Inr f, s') \<Longrightarrow>
     files s' = files s @ [f] \<and> posts s' = posts s \<and> tags s' = tags s \<and>
     taggings s' = taggings s \<and> users s' = users s"
  by (auto simp: new_file_def Let_def split: if_splits sum.splits)

lemma new_post_Inr:
  "new_post fault now fid uid t d s = (Inr p, s') \<Longrightarrow>
     posts s' = posts s @ [p] \<and> postId p \<notin> postId ` set (posts s) \<and> files s' = files s \<and> tags s' = tags s \<and>
     taggings s' = taggings s \<and> users s' = users s"
  by (auto simp: new_post_def Let_def split: if_splits sum.splits option.splits)

lemma upload_sql_Inr:
  assumes "upload_sql fault now p1 p2 p3 p4 p5 p6 p7 p8 p9 s = (Inr r, s')"
  shows "\<exists>p f. r = [(p, f)] \<and> postId p \<notin> postId ` set (posts s)
     \<and> files s' = files s @ [f] \<and> posts s' = posts s @ [p] \<and> users s' = users s
     \<and> tags s' = upsert_tags (tags s) p9
     \<and> taggings s' = taggings s @ add_taggings (postId p) p9"
proof -
  from assms obtain sound layers where b: "bind_int4 p3 = Inr sound" "bind_int4 p5 = Inr layers"
    by (auto simp: upload_sql_def split: sum.splits)
  from assms b obtain f s1 where nf: "new_file fault p1 p2 sound p4 layers s = (Inr f, s1)"
    by (auto simp: upload_sql_def split: sum.splits prod.splits)
  from assms b nf obtain p s2 where np: "new_post fault now (fileId f) p6 p7 p8 s1 = (Inr p, s2)"
    by (auto simp: upload_sql_def split: sum.splits prod.splits)
  from assms b nf np have "r = [(p, f)]" "files s' = files s2" "posts s' = posts s2" "users s' = users s2"
    "tags s' = upsert_tags (tags s2) p9" "taggings s' = taggings s2 @ add_taggings (postId p) p9"
    by (auto simp: upload_sql_def Let_def split: if_splits)
  with new_file_Inr[OF nf] new_post_Inr[OF np] show ?thesis
    by auto
qed

lemma tags_after_upload:
  "tags (snd (upload fault now req s)) = tags s \<or>
   tags (snd (upload fault now req s)) = upsert_tags (tags s) (tag_array (Upload fault now req))"
proof (cases "upload fault now req s")
  case (Pair r s')
  then show ?thesis
    by (auto simp: upload_def Let_def split: option.splits prod.splits sum.splits
             dest!: db_query_error db_query_Inr upload_sql_Inr)
qed

lemma tags_after_edit:
  "tags (snd (editId fault id' body s)) = tags s \<or>
   tags (snd (editId fault id' body s)) = upsert_tags (tags s) (tag_array (Edit fault id' body))"
proof (cases "editId fault id' body s")
  case (Pair r s')
  then show ?thesis
    by (auto simp: editId_def Let_def split: option.splits prod.splits sum.splits
             dest!: db_query_error db_query_Inr edit_sql_Inr)
qed

lemma tags_after_serve:
  "tags (serve r s) = tags s \<or> tags (serve r s) = upsert_tags (tags s) (tag_array r)"
  using tags_after_upload tags_after_edit by (cases r) simp_all

lemma distinct_tags_serve: "distinct (tags s) \<Longrightarrow> distinct (tags (serve r s))"
  using tags_after_serve[of r s] by (auto simp: distinct_upsert_tags)

lemma distinct_tags_run: "distinct (tags s) \<Longrightarrow> distinct (tags (run rs s))"
  unfolding run_def by (induction rs arbitrary: s) (simp_all add: distinct_tags_serve)

lemma tags_serve_present: "set (tag_array r) \<subseteq> set (tags s) \<Longrightarrow> tags (serve r s) = tags s"
  using tags_after_serve[of r s] by (auto simp: upsert_tags_present)

lemma fst_db_query: "fst (db_query sql s) = fst (sql (s\<lparr>statements := statements s + 1\<rparr>))"
  by (auto simp: db_query_def Let_def split: prod.splits sum.splits)

lemma new_file_tags:
  "new_file fault key loc sound name layers (s\<lparr>tags := T\<rparr>) =
     (fst (new_file fault key loc sound name layers s),
      (snd (new_file fault key loc sound name layers s))\<lparr>tags := T\<rparr>)"
  by (auto simp: new_file_def Let_def split: sum.splits)

lemma new_post_tags:
  "new_post fault now fid uid t d (s\<lparr>tags := T\<rparr>) =
     (fst (new_post fault now fid uid t d s), (snd (new_post fault now fid uid t d s))\<lparr>tags := T\<rparr>)"
  by (auto simp: new_post_def Let_def split: sum.splits option.splits)

lemma update_post_tags:
  "update_post fault t d pid (s\<lparr>tags := T\<rparr>) =
     (fst (update_post fault t d pid s), (snd (update_post fault t d pid s))\<lparr>tags := T\<rparr>)"
  by (auto simp: update_post_def split: option.splits)

lemma fkeys_added:
  "list_all (tagging_fkeys (s\<lparr>tags := upsert_tags T ts, taggings := tg\<rparr>)) (add_taggings pid ts)
     \<longleftrightarrow> ts = [] \<or> pid \<in> postId ` set (posts s)"
  by (cases ts) (auto simp: list_all_iff tagging_fkeys_def add_taggings_def set_upsert_tags)

lemma add_taggings_Nil: "add_taggings pid [] = []"
  by (simp add: add_taggings_def)

lemma upload_sql_tags:
  "fst (upload_sql fault now p1 p2 p3 p4 p5 p6 p7 p8 p9 (s\<lparr>tags := T\<rparr>)) =
   fst (upload_sql fault now p1 p2 p3 p4 p5 p6 p7 p8 p9 s)"
  by (auto simp: upload_sql_def new_file_tags new_post_tags Let_def fkeys_added post_fkeys_def
           split: sum.splits prod.splits)

lemma edit_sql_tags:
  "fst (edit_sql fault p1 p2 p3 p4 (s\<lparr>tags := T\<rparr>)) = fst (edit_sql fault p1 p2 p3 p4 s)"
  by (auto simp: edit_sql_def update_post_tags Let_def fkeys_added add_taggings_Nil
           split: sum.splits prod.splits)

lemma tags_statements_commute:
  "s\<lparr>tags := T, statements := n\<rparr> = s\<lparr>statements := n, tags := T\<rparr>"
  by (cases s) simp

lemma fst_upload:
  "fst (upload fault now req s) =
     (case sar_key req of
        None \<Rightarrow> Failed TypeError
      | Some key \<Rightarrow>
     (case thumbnail_location req of
        None \<Rightarrow> Failed TypeError
      | Some loc \<Rightarrow>
     (case body_tags req of
        None \<Rightarrow> Failed TypeError
      | Some rawTags \<Rightarrow>
     (case fst (db_query
                  (upload_sql fault now key loc (body_filePropsSound req)
                     (body_filePropsName req) (body_filePropsLayerCount req)
                     (case req_userId req of None \<Rightarrow> 1 | Some u \<Rightarrow> u) (body_title req)
                     (case body_description req of None \<Rightarrow> [] | Some x \<Rightarrow> x)
                     (map trim (split rawTags comma))) s) of
        Inl e \<Rightarrow> Unhandled (DatabaseError e)
      | Inr r \<Rightarrow> Json r))))"
  by (auto simp: upload_def Let_def split: option.splits prod.splits sum.splits)

lemma fst_editId:
  "fst (editId fault id' body s) =
     (case edit_tags body of
        None \<Rightarrow> Failed TypeError
      | Some rawTags \<Rightarrow>
     (case fst (db_query
                  (edit_sql fault (edit_title body)
                     (case edit_description body of None \<Rightarrow> [] | Some x \<Rightarrow> x) id'
                     (map trim rawTags)) s) of
        Inl e \<Rightarrow> Unhandled (DatabaseError e)
      | Inr r \<Rightarrow> Json r))"
  by (auto simp: editId_def Let_def split: option.splits prod.splits sum.splits)

lemma db_query_tags:
  assumes "\<And>s. fst (sql (s\<lparr>tags := T\<rparr>)) = fst (sql s)"
  shows "fst (db_query sql (s\<lparr>tags := T\<rparr>)) = fst (db_query sql s)"
  using assms[of "s\<lparr>statements := statements s + 1\<rparr>"]
  by (simp add: fst_db_query tags_statements_commute)

lemma db_query_upload_tags:
  "fst (db_query (upload_sql fault now p1 p2 p3 p4 p5 p6 p7 p8 p9) (s\<lparr>tags := T\<rparr>)) =
   fst (db_query (upload_sql fault now p1 p2 p3 p4 p5 p6 p7 p8 p9) s)"
  by (rule db_query_tags) (rule upload_sql_tags)

lemma db_query_edit_tags:
  "fst (db_query (edit_sql fault p1 p2 p3 p4) (s\<lparr>tags := T\<rparr>)) =
   fst (db_query (edit_sql fault p1 p2 p3 p4) s)"
  by (rule db_query_tags) (rule edit_sql_tags)

lemma upload_tags:
  "fst (upload fault now req (s\<lparr>tags := T\<rparr>)) = fst (upload fault now req s)"
  by (simp add: fst_upload db_query_upload_tags split: option.splits)

lemma editId_tags:
  "fst (editId fault id' body (s\<lparr>tags := T\<rparr>)) = fst (editId fault id' body s)"
  by (simp add: fst_editId db_query_edit_tags split: option.splits)

text \<open>
  Claim C9. For every store and every list of creation and edit requests, with any faults
  and any outcomes: if no name stands twice in \<^verbatim>\<open>tags\<close> before the requests, none does
  after them. A request all of whose tag names are in \<^verbatim>\<open>tags\<close> already leaves that
  table as it is. And the answer of a creation or edit request is the same whatever
  names the table holds when it arrives: a name that is there already makes no error.
\<close>

theorem tag_upsert_idempotent:
  "(distinct (tags s) \<longrightarrow> distinct (tags (run rs s)))
   \<and> (set (tag_array r) \<subseteq> set (tags s) \<longrightarrow> tags (serve r s) = tags s)
   \<and> fst (upload fault now req (s\<lparr>tags := T\<rparr>)) = fst (upload fault now req s)
   \<and> fst (editId fault id' body (s\<lparr>tags := T\<rparr>)) = fst (editId fault id' body s)"
  using distinct_tags_run tags_serve_present upload_tags editId_tags by blast

text \<open>The creation request of the examples sent twice to the dump: the first adds the
  names \<^verbatim>\<open>pso2\<close>, \<^verbatim>\<open>meme\<close> and the empty name, the second adds none.\<close>

theorem tag_upsert_idempotent_witness:
  "distinct (tags dump)
   \<and> distinct (tags (run [Upload no_fault 1654300000000000 example_upload,
                          Upload no_fault 1654300000000001 example_upload] dump))
   \<and> tags (serve (Upload no_fault 1654300000000000 example_upload) dump) =
       [''flash'', ''2000s'', ''drake meme'', ''meme forma'', ''pso2'',
        ''meme'', []]
   \<and> set (tag_array (Upload no_fault 1654300000000001 example_upload))
       \<subseteq> set (tags (serve (Upload no_fault 1654300000000000 example_upload) dump))
   \<and> tags (serve (Upload no_fault 1654300000000001 example_upload)
              (serve (Upload no_fault 1654300000000000 example_upload) dump)) =
       tags (serve (Upload no_fault 1654300000000000 example_upload) dump)"
proof -
  let ?s = "serve (Upload no_fault 1654300000000000 example_upload) dump"
  have d: "distinct (tags dump)"
    by code_simp
  have t: "tags ?s = [''flash'', ''2000s'', ''drake meme'', ''meme forma'',
                      ''pso2'', ''meme'', []]"
    by code_simp
  have "tag_array (Upload no_fault 1654300000000001 example_upload) =
          [''pso2'', ''pso2'', ''meme'', []]"
    by code_simp
  with t have sub: "set (tag_array (Upload no_fault 1654300000000001 example_upload))
                      \<subseteq> set (tags ?s)"
    by simp
  from d tag_upsert_idempotent[of dump]
  have "distinct (tags (run [Upload no_fault 1654300000000000 example_upload,
                             Upload no_fault 1654300000000001 example_upload] dump))"
    by blast
  moreover from sub tag_upsert_idempotent[of ?s]
  have "tags (serve (Upload no_fault 1654300000000001 example_upload) ?s) = tags ?s"
    by blast
  ultimately show ?thesis
    using d t sub by blast
qed

section \<open>The tags of a post\<close>

lemma array_agg_added:
  "\<forall>t\<in>set tg. tagging_postId t \<noteq> pid \<Longrightarrow> array_agg_tagName (tg @ add_taggings pid ts) pid = ts"
  by (simp add: array_agg_tagName_def add_taggings_def filter_empty_conv comp_def)

lemma array_agg_replaced:
  "array_agg_tagName (filter (\<lambda>t. tagging_postId t \<noteq> pid) tg @ add_taggings pid ts) pid = ts"
  by (rule array_agg_added) simp

text \<open>The claim as the specification states it fails: the creation request of the
  examples, whose field \<^verbatim>\<open>tags\<close> is \<^verbatim>\<open>pso2, pso2 , meme,  \<close>, is answered with the new
  post 9, and the names of post 9 are not \<^verbatim>\<open>pso2\<close>, \<^verbatim>\<open>meme\<close>.\<close>

theorem tags_normalized_counterexample:
  "fst (upload no_fault 1654300000000000 example_upload dump) = Json [(example_post, example_file)]
   \<and> array_agg_tagName
         (taggings (snd (upload no_fault 1654300000000000 example_upload dump))) 9
       \<noteq> [''pso2'', ''meme'']"
  by code_simp

text \<open>
  Claim C3, amended. The names \<^verbatim>\<open>array_agg\<close> collects for a post after a creation or
  edit request that is answered are the tokens of the request, each trimmed, all of them
  and in their order: the pieces between the commas of the field \<^verbatim>\<open>tags\<close> for a
  creation, the elements of the array \<^verbatim>\<open>tags\<close> for an edit. Empty tokens and repeated
  tokens stay. (For a creation the rows of \<^verbatim>\<open>taggings\<close> are taken to refer to posts of
  \<^verbatim>\<open>posts\<close>, as the foreign key of the schema has it.)
\<close>

theorem tags_are_trimmed_tokens:
  "(upload fault now req s = (Json rows, s') \<and>
      (\<forall>t\<in>set (taggings s). tagging_postId t \<in> postId ` set (posts s)) \<longrightarrow>
      (\<exists>p f rawTags. rows = [(p, f)] \<and> body_tags req = Some rawTags \<and>
         array_agg_tagName (taggings s') (postId p) = map trim (split rawTags comma)))
   \<and> (editId fault' id' body s = (Json views, s'') \<longrightarrow>
      (\<exists>pid rawTags. int4in id' = Inr pid \<and> edit_tags body = Some rawTags \<and>
         array_agg_tagName (taggings s'') pid = map trim rawTags))"
proof (intro conjI impI)
  assume a: "upload fault now req s = (Json rows, s') \<and>
      (\<forall>t\<in>set (taggings s). tagging_postId t \<in> postId ` set (posts s))"
  then obtain rawTags key loc d uid where raw: "body_tags req = Some rawTags"
    and q: "upload_sql fault now key loc (body_filePropsSound req) (body_filePropsName req)
              (body_filePropsLayerCount req) uid (body_title req) d (map trim (split rawTags comma))
              (s\<lparr>statements := statements s + 1\<rparr>) = (Inr rows, s')"
    by (auto simp: upload_def Let_def split: option.splits prod.splits sum.splits dest: db_query_Inr)
  from upload_sql_Inr[OF q] obtain p f where r: "rows = [(p, f)]"
    and fresh: "postId p \<notin> postId ` set (posts s)"
    and tg: "taggings s' = taggings s @ add_taggings (postId p) (map trim (split rawTags comma))"
    by auto
  from a fresh have "\<forall>t\<in>set (taggings s). tagging_postId t \<noteq> postId p"
    by metis
  then have "array_agg_tagName (taggings s') (postId p) = map trim (split rawTags comma)"
    unfolding tg by (rule array_agg_added)
  with r raw show "\<exists>p f rawTags. rows = [(p, f)] \<and> body_tags req = Some rawTags \<and>
         array_agg_tagName (taggings s') (postId p) = map trim (split rawTags comma)"
    by blast
next
  assume "editId fault' id' body s = (Json views, s'')"
  then obtain rawTags d where raw: "edit_tags body = Some rawTags"
    and q: "edit_sql fault' (edit_title body) d id' (map trim rawTags)
              (s\<lparr>statements := statements s + 1\<rparr>) = (Inr views, s'')"
    by (auto simp: editId_def Let_def split: option.splits prod.splits sum.splits dest: db_query_Inr)
  from edit_sql_Inr[OF q] obtain pid where "int4in id' = Inr pid"
    and "taggings s'' = filter (\<lambda>t. tagging_postId t \<noteq> pid) (taggings s) @ add_taggings pid (map trim rawTags)"
    by auto
  with raw show "\<exists>pid rawTags. int4in id' = Inr pid \<and> edit_tags body = Some rawTags \<and>
         array_agg_tagName (taggings s'') pid = map trim rawTags"
    by (auto simp: array_agg_replaced)
qed

text \<open>The creation request of the examples and an edit of post 2, on the dump.\<close>

theorem tags_are_trimmed_tokens_witness:
  "fst (upload no_fault 1654300000000000 example_upload dump) = Json [(example_post, example_file)]
   \<and> array_agg_tagName
         (taggings (snd (upload no_fault 1654300000000000 example_upload dump))) 9
       = [''pso2'', ''pso2'', ''meme'', []]
   \<and> array_agg_tagName (taggings (snd (editId no_fault ''2'' example_edit dump))) 2
       = [''flash'', ''flash'', ''pso2'', []]"
proof -
  let ?u = "upload no_fault 1654300000000000 example_upload dump"
  let ?e = "editId no_fault ''2'' example_edit dump"
  have fu: "fst ?u = Json [(example_post, example_file)]"
    by code_simp
  then have up: "?u = (Json [(example_post, example_file)], snd ?u)"
    by (simp add: prod_eq_iff)
  have fk: "\<forall>t\<in>set (taggings dump). tagging_postId t \<in> postId ` set (posts dump)"
    by code_simp
  have raw: "body_tags example_upload = Some ''pso2, pso2 , meme,  ''"
    by (simp add: example_upload_def)
  from tags_are_trimmed_tokens[THEN conjunct1, rule_format, OF conjI[OF up fk]]
  obtain p f rawTags where "[(example_post, example_file)] = [(p, f)]"
    and "body_tags example_upload = Some rawTags"
    and "array_agg_tagName (taggings (snd ?u)) (postId p) = map trim (split rawTags comma)"
    by blast
  with raw have "array_agg_tagName (taggings (snd ?u)) (postId example_post) =
                   map trim (split ''pso2, pso2 , meme,  '' comma)"
    by simp
  moreover have "postId example_post = 9"
    by (simp add: example_post_def)
  moreover have "map trim (split ''pso2, pso2 , meme,  '' comma) =
                   [''pso2'', ''pso2'', ''meme'', []]"
    by code_simp
  ultimately have a: "array_agg_tagName (taggings (snd ?u)) 9 =
                        [''pso2'', ''pso2'', ''meme'', []]"
    by simp
  have "fst ?e = Json [project (posts dump ! 0) (files dump ! 0) (users dump ! 0)
                         (Some [''flash'', ''flash'', ''pso2'', []])]"
    by code_simp
  then have ed: "?e = (Json [project (posts dump ! 0) (files dump ! 0) (users dump ! 0)
                               (Some [''flash'', ''flash'', ''pso2'', []])], snd ?e)"
    by (simp add: prod_eq_iff)
  have rawe: "edit_tags example_edit = Some ['' flash'', ''flash '', ''pso2'', []]"
    by (simp add: example_edit_def)
  have two: "int4in ''2'' = Inr 2"
    by code_simp
  from tags_are_trimmed_tokens[THEN conjunct2, rule_format, OF ed]
  obtain pid rawTags where "int4in ''2'' = Inr pid"
    and "edit_tags example_edit = Some rawTags"
    and "array_agg_tagName (taggings (snd ?e)) pid = map trim rawTags"
    by blast
  with rawe two have "array_agg_tagName (taggings (snd ?e)) 2 =
                        map trim ['' flash'', ''flash '', ''pso2'', []]"
    by simp
  moreover have "map trim ['' flash'', ''flash '', ''pso2'', []] =
                   [''flash'', ''flash'', ''pso2'', []]"
    by code_simp
  ultimately have b: "array_agg_tagName (taggings (snd ?e)) 2 =
                        [''flash'', ''flash'', ''pso2'', []]"
    by simp
  from fu a b show ?thesis
    by blast
qed

section \<open>The readers of parameters on examples\<close>

lemma ToNumber_examples:
  "map ToNumber [''1'', ''0'', ''-1'', ''abc'', ''1.5'', '' 5 '', ''0x10'', ''1e3'',
                 ''2147483648'', ''.5'', ''5.'', ''Infinity'', ''-Infinity'', [], ''+'',
                 ''1e'', ''0x'', ''1_0'', ''-0x10'', ''1.5e-2'', ''.'', ''e5'', ''0b101'',
                 ''0O17'', ''0xfF'', ''12a'', ''- 1'']
   = [Fin 1, Fin 0, Fin (- 1), NaN, Fin (3 / 2), Fin 5, Fin 16, Fin 1000,
      Fin 2147483648, Fin (1 / 2), Fin 5, PosInf, NegInf, Fin 0, NaN,
      NaN, NaN, NaN, NaN, Fin (3 / 200), NaN, NaN, Fin 5,
      Fin 15, Fin 255, NaN, NaN]"
  by code_simp

lemma int4in_examples:
  "map int4in [''1'', '' -12 '', ''abc'', ''1.5'', ''2147483648'', ''-2147483648'', ''+7'', [],
               ''99999999999999999999x'', ''0x10'', ''1e3'']
   = [Inr 1, Inr (- 12), Inl invalid_text_representation, Inl invalid_text_representation,
      Inl numeric_value_out_of_range, Inr (- 2147483648), Inr 7,
      Inl invalid_text_representation, Inl numeric_value_out_of_range,
      Inl invalid_text_representation, Inl invalid_text_representation]"
  by code_simp

lemma trim_examples:
  "map trim [''  a b  '', [CHR 0x09, CHR ''x'', CHR 0xA0, CHR 0x0A], ''   '', []]
   = [''a b'', ''x'', [], []]"
  by code_simp

section \<open>The checks of an identity\<close>

text \<open>The three handlers that check their parameter let it pass exactly when it reads as
  a number from 1 to 2147483647, and answer 400 without a statement otherwise.\<close>

lemma check_id_None:
  "check_id id' = None \<longleftrightarrow> (\<exists>v. ToNumber id' = Fin v \<and> 1 \<le> v \<and> v \<le> 2147483647)"
  by (cases "ToNumber id'") (auto simp: check_id_def isNaN_def js_ge_def js_le_def)

lemma checked_handlers_reject:
  assumes "check_id id' \<noteq> None"
  shows "viewId id' s = (Failed (ClientError 400), s)"
    and "downloadId download id' s = (Failed (ClientError 400), s)"
    and "catalog_user id' s = (Failed (ClientError 400), s)"
  using assms
  by (auto simp: viewId_def downloadId_def catalog_user_def check_id_def split: if_splits)

text \<open>The handler of an edit sends its statement whatever the identity is.\<close>

lemma update_post_statements: "statements (snd (update_post fault t d pid s)) = statements s"
  by (auto simp: update_post_def split: option.splits)

lemma edit_sql_statements: "statements (snd (edit_sql fault p1 p2 p3 p4 s)) = statements s"
proof (cases "int4in p3")
  case (Inl e)
  then show ?thesis by (simp add: edit_sql_def)
next
  case (Inr pid)
  with update_post_statements[of fault p1 p2 pid s] show ?thesis
    by (auto simp: edit_sql_def Let_def split: prod.splits sum.splits)
qed

lemma db_query_statements:
  assumes "\<And>s. statements (snd (sql s)) = statements s"
  shows "statements (snd (db_query sql s)) = statements s + 1"
  using assms[of "s\<lparr>statements := statements s + 1\<rparr>"]
  by (auto simp: db_query_def Let_def split: prod.splits sum.splits)

lemma statements_db_query_edit:
  "statements (snd (db_query (edit_sql fault p1 p2 p3 p4) s)) = statements s + 1"
  by (rule db_query_statements) (rule edit_sql_statements)

lemma snd_editId:
  "edit_tags body = Some rawTags \<Longrightarrow>
   snd (editId fault id' body s) =
   snd (db_query (edit_sql fault (edit_title body)
                    (case edit_description body of None \<Rightarrow> [] | Some x \<Rightarrow> x) id'
                    (map trim rawTags)) s)"
  by (simp add: editId_def Let_def split: prod.splits sum.splits)

lemma editId_sends_statement:
  "edit_tags body \<noteq> None \<Longrightarrow> statements (snd (editId fault id' body s)) = statements s + 1"
  by (auto simp: snd_editId statements_db_query_edit)

text \<open>
  Claim C7 fails for the edit of a post. With the identity \<^verbatim>\<open>abc\<close> or \<^verbatim>\<open>2147483648\<close> the
  handler of an edit sends its statement and the server refuses the parameter: the
  promise is rejected and no invalid-request answer is sent. With \<^verbatim>\<open>0\<close> or \<^verbatim>\<open>-1\<close> and
  an empty tag array the statement runs and the request is answered with an empty result.
  The handler of the single-post lookup answers 400 to \<^verbatim>\<open>abc\<close> and \<^verbatim>\<open>0\<close> and sends no
  statement.
\<close>

theorem edit_without_id_check:
  "editId no_fault ''abc'' example_edit dump =
     (Unhandled (DatabaseError invalid_text_representation), dump\<lparr>statements := 1\<rparr>)
   \<and> editId no_fault ''2147483648'' example_edit dump =
     (Unhandled (DatabaseError numeric_value_out_of_range), dump\<lparr>statements := 1\<rparr>)
   \<and> editId no_fault ''0'' untag_edit dump = (Json [], dump\<lparr>statements := 1\<rparr>)
   \<and> editId no_fault ''-1'' untag_edit dump = (Json [], dump\<lparr>statements := 1\<rparr>)
   \<and> viewId ''abc'' dump = (Failed (ClientError 400), dump)
   \<and> viewId ''0'' dump = (Failed (ClientError 400), dump)"
  by code_simp

section \<open>Requests for a post that is not there\<close>

lemma editId_never_not_found:
  "fst (editId fault id' body s) \<noteq> Failed (ClientError 404)"
  by (auto simp: editId_def Let_def split: option.splits prod.splits sum.splits)

lemma downloadId_never_not_found:
  "fst (downloadId download id' s) \<noteq> Failed (ClientError 404)"
  by (auto simp: downloadId_def truthy_def check_id_def
           split: option.splits prod.splits sum.splits list.splits if_splits)

text \<open>
  Claim C6 fails. No post of the dump has the identity 999. An edit of post 999 with an
  empty tag array is answered with the result of the statement, which has no row; an edit
  of post 999 with tags ends in the foreign key of \<^verbatim>\<open>taggings\<close>, a rejected promise and no
  answer. Neither is a not-found answer, which the lookup of post 999 does give.
\<close>

theorem edit_of_missing_post:
  "editId no_fault ''999'' untag_edit dump = (Json [], dump\<lparr>statements := 1\<rparr>)
   \<and> editId no_fault ''999'' example_edit dump =
       (Unhandled (DatabaseError foreign_key_violation), dump\<lparr>statements := 1\<rparr>)
   \<and> viewId ''999'' dump = (Failed (ClientError 404), dump\<lparr>statements := 1\<rparr>)"
  by code_simp

text \<open>
  Claim C8 fails in its first half. A download of post 999 of the dump passes the checks,
  its statement returns no row, the test \<^verbatim>\<open>!reSQL.rows\<close> is false for the empty array,
  and taking the first row throws inside the promise: no not-found answer, no answer at
  all. A download of post 4 is redirected to the locator the storage middleware signs for
  the key of its file and its title with \<^verbatim>\<open>.sar\<close>.
\<close>

theorem download_of_missing_post:
  "downloadId download ''999'' dump = (Unhandled TypeError, dump\<lparr>statements := 1\<rparr>)
   \<and> downloadId download ''4'' dump =
       (Redirect (download ''d2b28056-4bf0-449b-9f98-e5f77ccaf9fc.sar''
                    ''Lobby Grinding >>>>.sar''),
        dump\<lparr>statements := 1\<rparr>)"
  by code_simp

section \<open>The constraints of the schema\<close>

text \<open>The dump satisfies the constraints of its schema, and every creation and edit
  request, whatever its outcome, leaves them satisfied: the statements check what
  PostgreSQL checks.\<close>

lemma consistent_dump: "consistent dump"
  by code_simp

lemma new_file_fresh:
  "new_file fault key loc sound name layers s = (Inr f, s') \<Longrightarrow> fileId f \<notin> fileId ` set (files s)"
  by (auto simp: new_file_def Let_def split: if_splits sum.splits)

lemma upload_sql_checked:
  assumes "upload_sql fault now p1 p2 p3 p4 p5 p6 p7 p8 p9 s = (Inr [(p, f)], s')"
  shows "post_fkeys s' p \<and> list_all (tagging_fkeys s') (add_taggings (postId p) p9) \<and> fileId f \<notin> fileId ` set (files s)"
proof -
  from assms obtain sound layers where b: "bind_int4 p3 = Inr sound" "bind_int4 p5 = Inr layers"
    by (auto simp: upload_sql_def split: sum.splits)
  from assms b obtain f' s1 where nf: "new_file fault p1 p2 sound p4 layers s = (Inr f', s1)"
    by (auto simp: upload_sql_def split: sum.splits prod.splits)
  from assms b nf obtain p' s2 where np: "new_post fault now (fileId f') p6 p7 p8 s1 = (Inr p', s2)"
    by (auto simp: upload_sql_def split: sum.splits prod.splits)
  from assms b nf np have "p' = p" "f' = f" "post_fkeys s' p \<and> list_all (tagging_fkeys s') (add_taggings (postId p) p9)"
    by (auto simp: upload_sql_def Let_def split: if_splits)
  with new_file_fresh[OF nf] show ?thesis by simp
qed

lemma fkeys_mono:
  assumes "fileId ` set (files s) \<subseteq> fileId ` set (files s')"
    and "userId ` set (users s) \<subseteq> userId ` set (users s')"
    and "postId ` set (posts s) \<subseteq> postId ` set (posts s')"
    and "set (tags s) \<subseteq> set (tags s')"
  shows "post_fkeys s p \<Longrightarrow> post_fkeys s' p" and "tagging_fkeys s t \<Longrightarrow> tagging_fkeys s' t"
  using assms by (auto simp: post_fkeys_def tagging_fkeys_def)

lemma consistent_upload_sql:
  assumes c: "consistent s" and q: "upload_sql fault now p1 p2 p3 p4 p5 p6 p7 p8 p9 s = (Inr r, s')"
  shows "consistent s'"
proof -
  from upload_sql_Inr[OF q] obtain p f where r: "r = [(p, f)]"
    and fresh: "postId p \<notin> postId ` set (posts s)"
    and eqs: "files s' = files s @ [f]" "posts s' = posts s @ [p]" "users s' = users s"
      "tags s' = upsert_tags (tags s) p9" "taggings s' = taggings s @ add_taggings (postId p) p9"
    by auto
  from upload_sql_checked[OF q[unfolded r]] have chk: "post_fkeys s' p"
    "list_all (tagging_fkeys s') (add_taggings (postId p) p9)" "fileId f \<notin> fileId ` set (files s)"
    by auto
  have mono: "fileId ` set (files s) \<subseteq> fileId ` set (files s')"
    "userId ` set (users s) \<subseteq> userId ` set (users s')"
    "postId ` set (posts s) \<subseteq> postId ` set (posts s')"
    "set (tags s) \<subseteq> set (tags s')"
    by (auto simp: eqs set_upsert_tags)
  from c have old: "list_all (post_fkeys s') (posts s)" "list_all (tagging_fkeys s') (taggings s)"
    using fkeys_mono[OF mono] by (auto simp: consistent_def list_all_iff)
  from c fresh chk old show ?thesis
    by (auto simp: consistent_def eqs distinct_upsert_tags)
qed

lemma update_post_ids:
  "update_post fault t d pid s = (Inr u, s') \<Longrightarrow>
     map postId (posts s') = map postId (posts s) \<and> map post_fileId (posts s') = map post_fileId (posts s)
     \<and> map post_userId (posts s') = map post_userId (posts s)"
  by (auto simp: update_post_def split: if_splits option.splits)

lemma edit_sql_checked:
  assumes "edit_sql fault p1 p2 p3 p4 s = (Inr r, s')" and "int4in p3 = Inr pid"
  shows "list_all (tagging_fkeys s') (add_taggings pid p4)
     \<and> map postId (posts s') = map postId (posts s) \<and> map post_fileId (posts s') = map post_fileId (posts s)
     \<and> map post_userId (posts s') = map post_userId (posts s)"
proof -
  from assms obtain s1 u where up: "update_post fault p1 p2 pid s = (Inr u, s1)"
    by (auto simp: edit_sql_def split: sum.splits prod.splits)
  from assms up have "list_all (tagging_fkeys s') (add_taggings pid p4)" "posts s' = posts s1"
    by (auto simp: edit_sql_def Let_def split: if_splits)
  with update_post_ids[OF up] show ?thesis by simp
qed

lemma consistent_edit_sql:
  assumes c: "consistent s" and q: "edit_sql fault p1 p2 p3 p4 s = (Inr r, s')"
  shows "consistent s'"
proof -
  from edit_sql_Inr[OF q] obtain pid where pid: "int4in p3 = Inr pid"
    and eqs: "files s' = files s" "users s' = users s" "tags s' = upsert_tags (tags s) p4"
      "taggings s' = filter (\<lambda>t. tagging_postId t \<noteq> pid) (taggings s) @ add_taggings pid p4"
    by auto
  from edit_sql_checked[OF q pid] have chk: "list_all (tagging_fkeys s') (add_taggings pid p4)"
    and ids: "map postId (posts s') = map postId (posts s)"
      "map post_fileId (posts s') = map post_fileId (posts s)"
      "map post_userId (posts s') = map post_userId (posts s)"
    by auto
  from ids(1) have pset: "postId ` set (posts s') = postId ` set (posts s)"
    by (metis set_map)
  from c have "list_all (post_fkeys s) (posts s)"
    by (simp add: consistent_def)
  then have "set (map post_fileId (posts s)) \<subseteq> fileId ` set (files s)"
    "set (map post_userId (posts s)) \<subseteq> userId ` set (users s)"
    by (auto simp: list_all_iff post_fkeys_def)
  then have "set (map post_fileId (posts s')) \<subseteq> fileId ` set (files s')"
    "set (map post_userId (posts s')) \<subseteq> userId ` set (users s')"
    by (simp_all only: ids eqs)
  then have pf: "list_all (post_fkeys s') (posts s')"
    by (auto simp: list_all_iff post_fkeys_def)
  from c have "list_all (tagging_fkeys s') (taggings s)"
    by (auto simp: consistent_def list_all_iff tagging_fkeys_def pset eqs set_upsert_tags)
  then have "list_all (tagging_fkeys s') (filter (\<lambda>t. tagging_postId t \<noteq> pid) (taggings s))"
    by (auto simp: list_all_iff)
  with c chk pf ids show ?thesis
    by (auto simp: consistent_def eqs distinct_upsert_tags)
qed

lemma consistent_tables:
  "files s' = files s \<Longrightarrow> posts s' = posts s \<Longrightarrow> tags s' = tags s \<Longrightarrow> taggings s' = taggings s \<Longrightarrow>
   users s' = users s \<Longrightarrow> consistent s' = consistent s"
  by (simp add: consistent_def post_fkeys_def tagging_fkeys_def list_all_iff)

lemma consistent_db_query:
  assumes "\<And>s r s'. consistent s \<Longrightarrow> sql s = (Inr r, s') \<Longrightarrow> consistent s'" and "consistent s"
  shows "consistent (snd (db_query sql s))"
proof (cases "db_query sql s")
  case (Pair r s')
  have c0: "consistent (s\<lparr>statements := statements s + 1\<rparr>)"
    using assms(2) by (simp add: consistent_def post_fkeys_def tagging_fkeys_def list_all_iff)
  show ?thesis
  proof (cases r)
    case (Inl e)
    with Pair db_query_error[of sql s e s'] assms(2) show ?thesis
      by (simp add: consistent_tables[of s' s])
  next
    case (Inr x)
    with Pair db_query_Inr[of sql s x s'] assms(1)[OF c0] show ?thesis
      by simp
  qed
qed

lemma snd_upload:
  "sar_key req = Some key \<Longrightarrow> thumbnail_location req = Some loc \<Longrightarrow>
   body_tags req = Some rawTags \<Longrightarrow>
   snd (upload fault now req s) =
   snd (db_query (upload_sql fault now key loc (body_filePropsSound req) (body_filePropsName req)
                    (body_filePropsLayerCount req)
                    (case req_userId req of None \<Rightarrow> 1 | Some u \<Rightarrow> u) (body_title req)
                    (case body_description req of None \<Rightarrow> [] | Some x \<Rightarrow> x)
                    (map trim (split rawTags comma))) s)"
  by (simp add: upload_def Let_def split: prod.splits sum.splits)

lemma upload_TypeError:
  "sar_key req = None \<or> thumbnail_location req = None \<or> body_tags req = None \<Longrightarrow>
   upload fault now req s = (Failed TypeError, s)"
  by (auto simp: upload_def Let_def split: option.splits)

lemma consistent_serve: "consistent s \<Longrightarrow> consistent (serve r s)"
proof (cases r)
  case (Upload fault now req)
  assume c: "consistent s"
  show ?thesis
  proof (cases "sar_key req = None \<or> thumbnail_location req = None \<or> body_tags req = None")
    case True
    from upload_TypeError[OF True] c Upload show ?thesis by simp
  next
    case False
    then obtain key loc rawTags where "sar_key req = Some key" "thumbnail_location req = Some loc"
      "body_tags req = Some rawTags"
      by auto
    from snd_upload[OF this] consistent_db_query[OF consistent_upload_sql c] Upload show ?thesis
      by simp
  qed
next
  case (Edit fault id' body)
  assume c: "consistent s"
  show ?thesis
  proof (cases "edit_tags body")
    case None
    with c Edit show ?thesis by (simp add: editId_def)
  next
    case (Some rawTags)
    from snd_editId[OF Some] consistent_db_query[OF consistent_edit_sql c] Edit show ?thesis
      by simp
  qed
qed

lemma consistent_run: "consistent s \<Longrightarrow> consistent (run rs s)"
  unfolding run_def by (induction rs arbitrary: s) (simp_all add: consistent_serve)

section \<open>Columns that are not enabled\<close>

text \<open>The weights of a post are built from the enabled columns only. So for two stores
  with the same rows by their keys, and in particular the same posts in \<^verbatim>\<open>tag_arrays\<close>,
  that agree on every enabled column, a search is answered with the same post identities
  and ranks in the same order, for every text search.\<close>

lemma list_all2_concat_map:
  assumes "list_all2 A xs ys" and "\<And>x y. A x y \<Longrightarrow> list_all2 B (f x) (g y)"
  shows "list_all2 B (concat (map f xs)) (concat (map g ys))"
  using assms by (induction rule: list_all2_induct) (auto intro: list_all2_appendI)

lemma list_all2_filter:
  assumes "list_all2 R xs ys" and "\<And>x y. R x y \<Longrightarrow> P x = Q y"
  shows "list_all2 R (filter P xs) (filter Q ys)"
  using assms by (induction rule: list_all2_induct) auto

lemma list_all2_insort_key:
  assumes "list_all2 R xs ys" and "R x y" and "\<And>x y. R x y \<Longrightarrow> k x = l y"
  shows "list_all2 R (insort_key k x xs) (insort_key l y ys)"
  using assms by (induction rule: list_all2_induct) auto

lemma list_all2_sort_key:
  assumes "list_all2 R xs ys" and "\<And>x y. R x y \<Longrightarrow> k x = l y"
  shows "list_all2 R (sort_key k xs) (sort_key l ys)"
  using assms by (induction rule: list_all2_induct) (auto intro: list_all2_insort_key)

lemma weights_enabled:
  assumes "col_title cfg \<longrightarrow> t' = t" and "col_description cfg \<longrightarrow> d' = d"
    and "col_tags cfg \<longrightarrow> g' = g" and "col_username cfg \<longrightarrow> n' = n"
  shows "weights ts cfg t' d' g' n' = weights ts cfg t d g n"
  using assms by (simp add: weights_def)


lemma search_ranking_same:
  assumes "same_enabled cfg s s'"
  shows "search_ranking ts cfg q s' = search_ranking ts cfg q s"
proof -
  from assms have ps: "list_all2 (\<lambda>p p'. postId p' = postId p \<and> post_fileId p' = post_fileId p \<and>
                  post_userId p' = post_userId p \<and>
                  (col_title cfg \<longrightarrow> title p' = title p) \<and>
                  (col_description cfg \<longrightarrow> description p' = description p))
        (posts s) (posts s')"
    and us: "list_all2 (\<lambda>u u'. userId u' = userId u \<and> (col_username cfg \<longrightarrow> username u' = username u))
          (users s) (users s')"
    and tas: "list_all2 (\<lambda>a a'. fst a' = fst a \<and> (col_tags cfg \<longrightarrow> snd a' = snd a))
          (tag_arrays (taggings s)) (tag_arrays (taggings s'))"
    by (simp_all add: same_enabled_def)
  have "list_all2 (=) (search_ranking ts cfg q s) (search_ranking ts cfg q s')"
    unfolding search_ranking_def
    apply (rule list_all2_concat_map[OF ps])
    apply (rule list_all2_concat_map[OF us])
    apply clarsimp
    apply (rule list_all2_concat_map[OF tas])
    apply clarsimp
    apply (rule arg_cong[where f = "map_option (\<lambda>w. ts_rank ts w (plainto_tsquery ts q))"])
    apply (rule weights_enabled; simp)
    done
  then show ?thesis
    by (simp add: list.rel_eq)
qed


lemma map_eq_list_all2: "map f ys = map f xs \<Longrightarrow> list_all2 (\<lambda>x y. f y = f x) xs ys"
  by (induction xs arbitrary: ys) auto

lemma search_joined_same:
  assumes "same_enabled cfg s s'"
  shows "list_all2 (\<lambda>r r'. r_postId r' = r_postId r \<and> ranks r' = ranks r)
           (search_joined ts cfg q s) (search_joined ts cfg q s')"
proof -
  from assms have ps: "list_all2 (\<lambda>p p'. postId p' = postId p \<and> post_fileId p' = post_fileId p \<and>
                  post_userId p' = post_userId p \<and>
                  (col_title cfg \<longrightarrow> title p' = title p) \<and>
                  (col_description cfg \<longrightarrow> description p' = description p))
        (posts s) (posts s')"
    and us: "list_all2 (\<lambda>u u'. userId u' = userId u \<and> (col_username cfg \<longrightarrow> username u' = username u))
          (users s) (users s')"
    and fm: "map fileId (files s') = map fileId (files s)"
    and tas: "list_all2 (\<lambda>a a'. fst a' = fst a \<and> (col_tags cfg \<longrightarrow> snd a' = snd a))
          (tag_arrays (taggings s)) (tag_arrays (taggings s'))"
    by (simp_all add: same_enabled_def)
  from fm have fs: "list_all2 (\<lambda>f f'. fileId f' = fileId f) (files s) (files s')"
    by (rule map_eq_list_all2)
  have srs: "list_all2 (=) (search_ranking ts cfg q s) (search_ranking ts cfg q s')"
    by (simp add: search_ranking_same[OF assms] list.rel_eq)
  show ?thesis
    unfolding search_joined_def
    apply (rule list_all2_concat_map[OF srs])
    apply (rule list_all2_concat_map[OF ps])
    apply clarsimp
    apply (rule list_all2_concat_map[OF fs])
    apply clarsimp
    apply (rule list_all2_concat_map[OF us])
    apply clarsimp
    apply (rule list_all2_concat_map[OF tas])
    apply (clarsimp simp: post_view.extend_def project_def)
    done
qed


lemma search_joined_statements:
  "search_joined ts cfg q (s\<lparr>statements := n\<rparr>) = search_joined ts cfg q s"
  by (simp add: search_joined_def search_ranking_def cong: if_cong)

lemma fst_search:
  "fst (search ts q cols s) =
     (let query = (case q of Some x \<Rightarrow> x | None \<Rightarrow> []);
          cfg = columnsConfig_of (case cols of Some x \<Rightarrow> x | None \<Rightarrow> []) in
      if falsy q \<or> falsy cols \<or>
         (\<not> col_title cfg \<and> \<not> col_description cfg \<and> \<not> col_tags cfg \<and> \<not> col_username cfg)
      then Failed (ClientError 400)
      else Json (take 20
                  (sort_key (\<lambda>r. map_option uminus (ranks r))
                     (filter (\<lambda>r. case ranks r of None \<Rightarrow> False | Some x \<Rightarrow> 1 / 100 < x)
                        (search_joined ts cfg query s)))))"
  by (simp add: search_def Let_def db_query_def search_sql_def search_joined_statements)

lemma ranking_same:
  "list_all2 (\<lambda>r r'. r_postId r' = r_postId r \<and> ranks r' = ranks r) rows rows' \<Longrightarrow>
   ranking rows' = ranking rows"
  unfolding ranking_def by (induction rule: list_all2_induct) auto

lemma search_ignores_disabled_columns:
  assumes "same_enabled (columnsConfig_of (case cols of Some x \<Rightarrow> x | None \<Rightarrow> [])) s s'"
  shows "map_reply ranking (fst (search ts q cols s')) = map_reply ranking (fst (search ts q cols s))"
proof -
  let ?R = "\<lambda>r r'::search_row. r_postId r' = r_postId r \<and> ranks r' = ranks r"
  let ?k = "\<lambda>r::search_row. map_option uminus (ranks r)"
  let ?P = "\<lambda>r::search_row. case ranks r of None \<Rightarrow> False | Some x \<Rightarrow> 1 / 100 < x"
  define cfg where "cfg = columnsConfig_of (case cols of Some x \<Rightarrow> x | None \<Rightarrow> [])"
  define query where "query = (case q of Some x \<Rightarrow> x | None \<Rightarrow> [])"
  from assms have "list_all2 ?R (search_joined ts cfg query s) (search_joined ts cfg query s')"
    unfolding cfg_def by (rule search_joined_same)
  then have "list_all2 ?R (filter ?P (search_joined ts cfg query s))
               (filter ?P (search_joined ts cfg query s'))"
    by (rule list_all2_filter) simp
  then have "list_all2 ?R (sort_key ?k (filter ?P (search_joined ts cfg query s)))
               (sort_key ?k (filter ?P (search_joined ts cfg query s')))"
    by (rule list_all2_sort_key) simp
  then have "list_all2 ?R (take 20 (sort_key ?k (filter ?P (search_joined ts cfg query s))))
               (take 20 (sort_key ?k (filter ?P (search_joined ts cfg query s'))))"
    by (rule list_all2_takeI)
  then have "ranking (take 20 (sort_key ?k (filter ?P (search_joined ts cfg query s')))) =
             ranking (take 20 (sort_key ?k (filter ?P (search_joined ts cfg query s))))"
    by (rule ranking_same)
  then show ?thesis
    by (simp add: fst_search Let_def cfg_def query_def)
qed

text \<open>In the dump the word \<^verbatim>\<open>Drake\<close> stands in the description of post 4 and in no title:
  a search in titles does not find the post, a search in descriptions does.\<close>

lemma search_title_only_example:
  "fst (search words_search (Some ''Drake'') (Some ''title'') dump) = Json []
   \<and> map_reply ranking (fst (search words_search (Some ''Drake'') (Some ''description'') dump))
       = Json [(4, Some (2 / 5))]"
  by code_simp

section \<open>Posts without tags\<close>

text \<open>
  Claim C4 fails. The edit that takes the tags of post 2 of the dump away is answered
  with post 2 and NULL tags, and leaves the row of post 2 in \<^verbatim>\<open>posts\<close>. From then on
  the full listing and the listing from offset 0 have post 4 only, and the lookup of
  post 2 answers 404: the joins with \<^verbatim>\<open>tag_arrays\<close> are inner joins, and a post without
  taggings has no row there.
\<close>

theorem untagged_post_dropped:
  "untagged = dump\<lparr>taggings := drop 2 (taggings dump), statements := 1\<rparr>
   \<and> fst (editId no_fault ''2'' untag_edit dump) =
       Json [project (posts dump ! 0) (files dump ! 0) (users dump ! 0) None]
   \<and> fst (catalog untagged) =
       Json [project (posts dump ! 1) (files dump ! 1) (users dump ! 0)
               (Some [''drake meme'', ''meme forma''])]
   \<and> fst (catalog_offset ''0'' untagged) =
       Json [project (posts dump ! 1) (files dump ! 1) (users dump ! 0)
               (Some [''drake meme'', ''meme forma''])]
   \<and> fst (viewId ''2'' untagged) = Failed (ClientError 404)"
  by code_simp

text \<open>
  Claim C2 fails for the same reason. The dump and the dump after that edit differ in the
  tags of post 2 only. A search for \<^verbatim>\<open>Flash\<close> in titles alone finds post 2 in the first
  and nothing in the second: the tags, which are not enabled, decide whether the post is
  in the result.
\<close>

theorem disabled_tags_decide_result:
  "posts untagged = posts dump \<and> files untagged = files dump \<and> users untagged = users dump
   \<and> fst (search words_search (Some ''Flash'') (Some ''title'') dump) =
       Json [post_view.extend
               (project (posts dump ! 0) (files dump ! 0) (users dump ! 0)
                  (Some [''flash'', ''2000s'']))
               \<lparr>ranks = Some 1\<rparr>]
   \<and> fst (search words_search (Some ''Flash'') (Some ''title'') untagged) = Json []"
  by code_simp

end
